theory Spec2Isabelle
  imports Main "HOL-Library.AList"
begin

text \<open>
  The request pipeline of the Assay command-line client: configuration file, OS keychain,
  credential resolution, expiration check, and the axios client with its request and
  response interceptors (retry on HTTP 429). Each function of the TypeScript source is a
  function here, under its own name; what the process reads and changes is explicit: a
  \<open>host\<close> that is only read, and a \<open>state\<close> that every effectful function takes and
  returns. An exception is the \<open>Inl\<close> of a sum.
\<close>

section \<open>JavaScript primitives used by the client\<close>

text \<open>
  Strings are lists of 8-bit characters. A value of type \<open>string | null | undefined\<close> is a
  \<open>string option\<close>; JavaScript's truthiness test on it (\<open>if (x)\<close>, \<open>!x\<close>, \<open>x || y\<close>)
  holds for a present, non-empty string only.
\<close>

definition truthy :: "string option \<Rightarrow> bool" where
  "truthy x = (case x of None \<Rightarrow> False | Some s \<Rightarrow> s \<noteq> [])"

text \<open>
  \<open>parseInt(string)\<close> with no radix: leading white space is skipped, a sign is read, a
  \<open>0x\<close> prefix selects radix 16, and the longest run of digits is converted. When there is
  no digit the result is \<open>NaN\<close>, which is \<open>None\<close> here. A JavaScript number is an
  \<open>int option\<close> throughout; arithmetic and \<open>Math.min\<close>/\<open>Math.max\<close> propagate \<open>NaN\<close>.
\<close>

definition isStrWhiteSpaceChar :: "char \<Rightarrow> bool" where
  "isStrWhiteSpaceChar c = (of_char c \<in> {9, 10, 11, 12, 13, 32, 160 :: nat})"

definition digitValue :: "char \<Rightarrow> nat option" where
  "digitValue c =
     (let n = (of_char c :: nat) in
      if 48 \<le> n \<and> n \<le> 57 then Some (n - 48)
      else if 97 \<le> n \<and> n \<le> 122 then Some (n - 87)
      else if 65 \<le> n \<and> n \<le> 90 then Some (n - 55)
      else None)"

definition isRadixDigit :: "nat \<Rightarrow> char \<Rightarrow> bool" where
  "isRadixDigit R c = (case digitValue c of None \<Rightarrow> False | Some d \<Rightarrow> d < R)"

definition digitsValue :: "nat \<Rightarrow> string \<Rightarrow> int" where
  "digitsValue R Z = foldl (\<lambda>a c. a * int R + int (case digitValue c of None \<Rightarrow> 0 | Some d \<Rightarrow> d)) 0 Z"

definition parseInt :: "string \<Rightarrow> int option" where
  "parseInt s =
     (let S = dropWhile isStrWhiteSpaceChar s;
          sign = (if take 1 S = ''-'' then - 1 else 1 :: int);
          S1 = (if take 1 S = ''-'' \<or> take 1 S = ''+'' then drop 1 S else S);
          R = (if take 2 S1 = ''0x'' \<or> take 2 S1 = ''0X'' then 16 else 10 :: nat);
          S2 = (if R = 16 then drop 2 S1 else S1);
          Z = takeWhile (isRadixDigit R) S2
      in if Z = [] then None else Some (sign * digitsValue R Z))"

text \<open>
  \<open>setTimeout(f, ms)\<close> in Node.js: a delay that is \<open>NaN\<close>, below 1 or above
  \<open>2147483647\<close> is replaced by 1.
\<close>

definition timerDelay :: "int option \<Rightarrow> int" where
  "timerDelay ms =
     (case ms of None \<Rightarrow> 1
      | Some d \<Rightarrow> if d < 1 \<or> 2147483647 < d then 1 else d)"

section \<open>Configuration values (types/config.ts)\<close>

datatype output_format = Json | Table | Yaml

record config =
  keyId :: "string option"
  apiKeyExpiresAt :: "string option"
  baseUrl :: string
  outputFormat :: output_format

definition string_of_output_format :: "output_format \<Rightarrow> string" where
  "string_of_output_format f = (case f of Json \<Rightarrow> ''json'' | Table \<Rightarrow> ''table'' | Yaml \<Rightarrow> ''yaml'')"

definition output_format_of_string :: "string \<Rightarrow> output_format option" where
  "output_format_of_string s =
     (if s = ''json'' then Some Json
      else if s = ''table'' then Some Table
      else if s = ''yaml'' then Some Yaml
      else None)"

section \<open>JSON text: \<open>JSON.stringify(value, null, 2)\<close> and \<open>JSON.parse\<close>\<close>

text \<open>
  A number keeps its source text, so that no floating point value is needed. An object is
  the list of its members in property order.
\<close>

datatype json =
    JNull
  | JBool bool
  | JNum string
  | JStr string
  | JArr "json list"
  | JObj "(string \<times> json) list"

abbreviation (input) DQ :: char where "DQ \<equiv> CHR 0x22"
abbreviation (input) BS :: char where "BS \<equiv> CHR 0x5C"
abbreviation (input) LF :: char where "LF \<equiv> CHR 0x0A"

definition hexDigit :: "nat \<Rightarrow> char" where
  "hexDigit d = ''0123456789abcdef'' ! (d mod 16)"

text \<open>\<open>QuoteJSONString\<close>: the two-character escapes, \<open>\u00XX\<close> for the other control
  characters, every other character as it is.\<close>

definition quoteChar :: "char \<Rightarrow> string" where
  "quoteChar c =
     (if c = CHR 0x08 then [BS, CHR ''b'']
      else if c = CHR 0x09 then [BS, CHR ''t'']
      else if c = CHR 0x0A then [BS, CHR ''n'']
      else if c = CHR 0x0C then [BS, CHR ''f'']
      else if c = CHR 0x0D then [BS, CHR ''r'']
      else if c = DQ then [BS, DQ]
      else if c = BS then [BS, BS]
      else if (of_char c :: nat) < 32
        then [BS, CHR ''u'', CHR ''0'', CHR ''0'', hexDigit (of_char c div 16), hexDigit (of_char c mod 16)]
      else [c])"

definition escapeString :: "string \<Rightarrow> string" where
  "escapeString s = concat (map quoteChar s)"

definition quoteJSONString :: "string \<Rightarrow> string" where
  "quoteJSONString s = DQ # escapeString s @ [DQ]"

fun joinWith :: "string \<Rightarrow> string list \<Rightarrow> string" where
  "joinWith sep [] = []"
| "joinWith sep [x] = x"
| "joinWith sep (x # y # ys) = x @ sep @ joinWith sep (y # ys)"

text \<open>\<open>SerializeJSONProperty\<close> with a gap of two spaces; the first argument is the current
  indentation.\<close>

fun stringify :: "string \<Rightarrow> json \<Rightarrow> string" where
  "stringify ind JNull = ''null''"
| "stringify ind (JBool b) = (if b then ''true'' else ''false'')"
| "stringify ind (JNum n) = n"
| "stringify ind (JStr s) = quoteJSONString s"
| "stringify ind (JArr vs) =
     (if vs = [] then ''[]''
      else ''['' @ [LF] @ (ind @ ''  '')
           @ joinWith ('','' @ [LF] @ (ind @ ''  '')) (map (\<lambda>v. stringify (ind @ ''  '') v) vs)
           @ [LF] @ ind @ '']'')"
| "stringify ind (JObj ms) =
     (if ms = [] then ''{}''
      else ''{'' @ [LF] @ (ind @ ''  '')
           @ joinWith ('','' @ [LF] @ (ind @ ''  ''))
               (map (\<lambda>m. quoteJSONString (fst m) @ '': '' @ stringify (ind @ ''  '') (snd m)) ms)
           @ [LF] @ ind @ ''}'')"

definition JSON_stringify :: "json \<Rightarrow> string" where
  "JSON_stringify v = stringify [] v"

text \<open>\<open>JSON.parse\<close>: a recursive-descent reader of the JSON grammar. \<open>None\<close> is the
  \<open>SyntaxError\<close>.\<close>

definition isJsonWs :: "char \<Rightarrow> bool" where
  "isJsonWs c = (c = CHR '' '' \<or> c = CHR 0x09 \<or> c = CHR 0x0A \<or> c = CHR 0x0D)"

definition skipWs :: "string \<Rightarrow> string" where
  "skipWs s = dropWhile isJsonWs s"

definition hexValue :: "char \<Rightarrow> nat option" where
  "hexValue c = (case digitValue c of None \<Rightarrow> None | Some d \<Rightarrow> if d < 16 then Some d else None)"

definition hex4 :: "char \<Rightarrow> char \<Rightarrow> char \<Rightarrow> char \<Rightarrow> nat option" where
  "hex4 a b c d =
     (case (hexValue a, hexValue b, hexValue c, hexValue d) of
        (Some w, Some x, Some y, Some z) \<Rightarrow> Some (((w * 16 + x) * 16 + y) * 16 + z)
      | _ \<Rightarrow> None)"

definition unescape :: "char \<Rightarrow> char option" where
  "unescape e =
     (if e = DQ then Some DQ
      else if e = BS then Some BS
      else if e = CHR ''/'' then Some (CHR ''/'')
      else if e = CHR ''b'' then Some (CHR 0x08)
      else if e = CHR ''f'' then Some (CHR 0x0C)
      else if e = CHR ''n'' then Some (CHR 0x0A)
      else if e = CHR ''r'' then Some (CHR 0x0D)
      else if e = CHR ''t'' then Some (CHR 0x09)
      else None)"

text \<open>The characters of a string literal after its opening quote, up to and including
  the closing quote. A \<open>\uXXXX\<close> escape above \<open>00FF\<close> names a code unit that the
  character type of this model does not have; such a text is outside the model and is
  rejected.\<close>

fun parseChars :: "string \<Rightarrow> (string \<times> string) option" where
  "parseChars [] = None"
| "parseChars (c # cs) =
     (if c = DQ then Some ([], cs)
      else if c = BS then
        (case cs of
           [] \<Rightarrow> None
         | e # cs1 \<Rightarrow>
            if e = CHR ''u'' then
              (case cs1 of
                 h1 # h2 # h3 # h4 # cs2 \<Rightarrow>
                   (case hex4 h1 h2 h3 h4 of
                      None \<Rightarrow> None
                    | Some n \<Rightarrow>
                        if n < 256
                        then map_option (\<lambda>(s, r). (char_of n # s, r)) (parseChars cs2)
                        else None)
               | _ \<Rightarrow> None)
            else
              (case unescape e of
                 None \<Rightarrow> None
               | Some d \<Rightarrow> map_option (\<lambda>(s, r). (d # s, r)) (parseChars cs1)))
      else if (of_char c :: nat) < 32 then None
      else map_option (\<lambda>(s, r). (c # s, r)) (parseChars cs))"

definition isDecDigit :: "char \<Rightarrow> bool" where
  "isDecDigit c = (48 \<le> (of_char c :: nat) \<and> (of_char c :: nat) \<le> 57)"

text \<open>A number token: \<open>-? (0 | [1-9][0-9]*) (. [0-9]+)? ([eE] [+-]? [0-9]+)?\<close>; the result
  is the token and the rest of the input.\<close>

definition scanNumber :: "string \<Rightarrow> (string \<times> string) option" where
  "scanNumber s =
     (let sgn = (if take 1 s = ''-'' then ''-'' else []);
          s1 = drop (length sgn) s;
          ip = takeWhile isDecDigit s1;
          s2 = dropWhile isDecDigit s1
      in if ip = [] \<or> (1 < length ip \<and> take 1 ip = ''0'') then None
         else
           (let hasFrac = (take 1 s2 = ''.'');
                fp = (if hasFrac then takeWhile isDecDigit (drop 1 s2) else []);
                s3 = (if hasFrac then dropWhile isDecDigit (drop 1 s2) else s2)
            in if hasFrac \<and> fp = [] then None
               else
                 (let hasExp = (take 1 s3 = ''e'' \<or> take 1 s3 = ''E'');
                      s4 = (if hasExp then drop 1 s3 else s3);
                      es = (if hasExp \<and> (take 1 s4 = ''+'' \<or> take 1 s4 = ''-'') then take 1 s4 else []);
                      s5 = drop (length es) s4;
                      ep = (if hasExp then takeWhile isDecDigit s5 else []);
                      s6 = (if hasExp then dropWhile isDecDigit s5 else s3)
                  in if hasExp \<and> ep = [] then None
                     else Some (take (length s - length s6) s, s6))))"

text \<open>The first argument bounds the number of nested calls; \<open>JSON_parse\<close> starts with the
  length of the text, and every call is made after at least one character was read.\<close>

fun parseValue :: "nat \<Rightarrow> string \<Rightarrow> (json \<times> string) option"
  and parseElements :: "nat \<Rightarrow> string \<Rightarrow> (json list \<times> string) option"
  and parseMembers :: "nat \<Rightarrow> string \<Rightarrow> ((string \<times> json) list \<times> string) option"
where
  "parseValue 0 s = None"
| "parseValue (Suc n) s =
     (case skipWs s of
        [] \<Rightarrow> None
      | c # cs \<Rightarrow>
          if c = CHR ''{'' then
            (case skipWs cs of
               [] \<Rightarrow> None
             | c2 # cs2 \<Rightarrow>
                 if c2 = CHR ''}'' then Some (JObj [], cs2)
                 else map_option (\<lambda>(ms, r). (JObj ms, r)) (parseMembers n (c2 # cs2)))
          else if c = CHR ''['' then
            (case skipWs cs of
               [] \<Rightarrow> None
             | c2 # cs2 \<Rightarrow>
                 if c2 = CHR '']'' then Some (JArr [], cs2)
                 else map_option (\<lambda>(vs, r). (JArr vs, r)) (parseElements n (c2 # cs2)))
          else if c = DQ then map_option (\<lambda>(str, r). (JStr str, r)) (parseChars cs)
          else if take 4 (c # cs) = ''true'' then Some (JBool True, drop 4 (c # cs))
          else if take 5 (c # cs) = ''false'' then Some (JBool False, drop 5 (c # cs))
          else if take 4 (c # cs) = ''null'' then Some (JNull, drop 4 (c # cs))
          else map_option (\<lambda>(l, r). (JNum l, r)) (scanNumber (c # cs)))"
| "parseElements 0 s = None"
| "parseElements (Suc n) s =
     (case parseValue n s of
        None \<Rightarrow> None
      | Some (v, r) \<Rightarrow>
          (case skipWs r of
             [] \<Rightarrow> None
           | c # cs \<Rightarrow>
               if c = CHR '','' then map_option (\<lambda>(vs, r2). (v # vs, r2)) (parseElements n cs)
               else if c = CHR '']'' then Some ([v], cs)
               else None))"
| "parseMembers 0 s = None"
| "parseMembers (Suc n) s =
     (case skipWs s of
        [] \<Rightarrow> None
      | c # cs \<Rightarrow>
          if c \<noteq> DQ then None
          else
            (case parseChars cs of
               None \<Rightarrow> None
             | Some (k, r) \<Rightarrow>
                 (case skipWs r of
                    [] \<Rightarrow> None
                  | c2 # cs2 \<Rightarrow>
                      if c2 \<noteq> CHR '':'' then None
                      else
                        (case parseValue n cs2 of
                           None \<Rightarrow> None
                         | Some (v, r2) \<Rightarrow>
                             (case skipWs r2 of
                                [] \<Rightarrow> None
                              | c3 # cs3 \<Rightarrow>
                                  if c3 = CHR '','' then
                                    map_option (\<lambda>(ms, r3). ((k, v) # ms, r3)) (parseMembers n cs3)
                                  else if c3 = CHR ''}'' then Some ([(k, v)], cs3)
                                  else None)))))"

definition JSON_parse :: "string \<Rightarrow> json option" where
  "JSON_parse s =
     (case parseValue (length s) s of
        None \<Rightarrow> None
      | Some (v, r) \<Rightarrow> if skipWs r = [] then Some v else None)"

section \<open>A Config as JSON\<close>

text \<open>
  The object that \<open>saveConfig\<close> serialises. \<open>JSON.stringify\<close> leaves out a property
  whose value is \<open>undefined\<close>. The property order is that of the objects this program
  builds: the default object of \<open>loadConfig\<close>, to which the login command adds \<open>keyId\<close>
  and \<open>apiKeyExpiresAt\<close>.
\<close>

definition configProperties :: "config \<Rightarrow> (string \<times> string) list" where
  "configProperties c =
     [(''baseUrl'', baseUrl c),
      (''outputFormat'', string_of_output_format (outputFormat c))]
     @ (case keyId c of None \<Rightarrow> [] | Some k \<Rightarrow> [(''keyId'', k)])
     @ (case apiKeyExpiresAt c of None \<Rightarrow> [] | Some e \<Rightarrow> [(''apiKeyExpiresAt'', e)])"

definition json_of_config :: "config \<Rightarrow> json" where
  "json_of_config c = JObj (map (\<lambda>p. (fst p, JStr (snd p))) (configProperties c))"

text \<open>
  \<open>loadConfig\<close> returns \<open>JSON.parse(content)\<close> under the declared type \<open>Config\<close>, with no
  check. The model makes the declared type explicit: the parsed value is read as a Config
  (property lookup, the last of several equal names counting, other properties ignored),
  and a value that is not of the declared type is reported as such.
\<close>

definition getProp :: "(string \<times> json) list \<Rightarrow> string \<Rightarrow> json option" where
  "getProp ms k = map_of (rev ms) k"

definition optionalString :: "json option \<Rightarrow> string option option" where
  "optionalString v =
     (case v of None \<Rightarrow> Some None | Some (JStr s) \<Rightarrow> Some (Some s) | Some _ \<Rightarrow> None)"

definition config_of_json :: "json \<Rightarrow> config option" where
  "config_of_json j =
     (case j of
        JObj ms \<Rightarrow>
          (case (optionalString (getProp ms ''keyId''),
                 optionalString (getProp ms ''apiKeyExpiresAt''),
                 getProp ms ''baseUrl'',
                 getProp ms ''outputFormat'') of
             (Some k, Some e, Some (JStr b), Some (JStr f)) \<Rightarrow>
               (case output_format_of_string f of
                  None \<Rightarrow> None
                | Some fmt \<Rightarrow>
                    Some \<lparr>keyId = k, apiKeyExpiresAt = e, baseUrl = b, outputFormat = fmt\<rparr>)
           | _ \<Rightarrow> None)
      | _ \<Rightarrow> None)"

section \<open>The host and the process state\<close>

datatype message =
    ApiKeyExpiredMessage
  | ApiKeyExpiresInMessage int
  | RateLimitedMessage "int option"

record response =
  respStatus :: nat
  respHeaders :: "(string \<times> string) list"
  respData :: string

datatype reply = Reply response | NoReply

record request_config =
  httpMethod :: string
  url :: string
  params :: "(string \<times> string) list"
  baseURL :: "string option"
  timeout :: "nat option"
  headers :: "(string \<times> string) list"
  retryCount :: "nat option"

text \<open>A plain \<open>Error\<close> thrown by the client's own code, and what a call of the client can
  reject with: such an \<open>Error\<close>, or the \<open>AxiosError\<close> of a request that was put on the
  wire, with its \<open>config\<close> and, when the server answered, its \<open>response\<close>.\<close>

datatype failure =
    NoApiKeyFound
  | ApiKeyExpired
  | FailedToLoadConfig
  | NotAConfig
  | IOError

datatype error =
    Error failure
  | AxiosError request_config "response option"

datatype fs_call =
    ExistsSync string
  | ReadFileSync string
  | MkdirSync string
  | WriteFileSync string string
  | ChmodSync string nat

text \<open>
  What the process finds and does not change: its environment variables, the platform, the
  path functions of Node.js, the operating system's answers to file-system and vault calls,
  the date parser (\<open>new Date(s).getTime()\<close>, \<open>None\<close> for \<open>NaN\<close>) and the server, which
  answers the n-th request put on the wire with \<open>replies n\<close>.
\<close>

record host =
  env :: "string \<Rightarrow> string option"
  platform :: string
  homedir :: string
  pathJoin :: "string \<Rightarrow> string \<Rightarrow> string"
  diskWritable :: bool
  chmodAllowed :: bool
  vault :: "(string \<times> string \<Rightarrow> string option) option"
  dateTime :: "string \<Rightarrow> int option"
  replies :: "nat \<Rightarrow> reply"

text \<open>
  What changes: the files, the module variable \<open>keytarAvailable\<close> of keychain.ts, the clock
  (\<open>Date.now()\<close>, advanced by \<open>sleep\<close> only), and the record of every effect: requests put
  on the wire, lines written by \<open>console.warn\<close>, calls of \<open>keytar.getPassword\<close> and
  file-system calls.
\<close>

record state =
  files :: "string \<Rightarrow> string option"
  dirs :: "string set"
  modes :: "string \<Rightarrow> nat option"
  keytarAvailable :: "bool option"
  clock :: int
  sent :: "request_config list"
  console :: "message list"
  vaultLog :: "(string \<times> string) list"
  fsLog :: "fs_call list"

section \<open>Configuration file management (utils/config)\<close>

definition SERVICE_NAME :: string where
  "SERVICE_NAME = ''assay-cli''"

definition KEY_NAME :: string where
  "KEY_NAME = ''api-key-secret''"

definition getConfigDir :: "host \<Rightarrow> string" where
  "getConfigDir h =
     (if truthy (env h ''ASSAY_CONFIG_DIR'') then the (env h ''ASSAY_CONFIG_DIR'')
      else if platform h = ''win32'' then
        pathJoin h
          (if truthy (env h ''APPDATA'') then the (env h ''APPDATA'')
           else if truthy (env h ''LOCALAPPDATA'') then the (env h ''LOCALAPPDATA'')
           else [])
          ''assay''
      else pathJoin h (homedir h) ''.assay'')"

definition getConfigPath :: "host \<Rightarrow> string" where
  "getConfigPath h = pathJoin h (getConfigDir h) ''config.json''"

definition existsSync :: "state \<Rightarrow> string \<Rightarrow> bool" where
  "existsSync s p = (files s p \<noteq> None \<or> p \<in> dirs s)"

definition defaultConfig :: config where
  "defaultConfig =
     \<lparr>keyId = None, apiKeyExpiresAt = None,
      baseUrl = ''https://us-east4-pdfsummaries.cloudfunctions.net/api'',
      outputFormat = Json\<rparr>"

definition loadConfig :: "host \<Rightarrow> state \<Rightarrow> (failure + config) \<times> state" where
  "loadConfig h s =
     (let configPath = getConfigPath h;
          s1 = s\<lparr>fsLog := fsLog s @ [ExistsSync configPath]\<rparr>
      in if \<not> existsSync s configPath then (Inr defaultConfig, s1)
         else
           (let s2 = s1\<lparr>fsLog := fsLog s1 @ [ReadFileSync configPath]\<rparr>
            in case files s configPath of
                 None \<Rightarrow> (Inl FailedToLoadConfig, s2)
               | Some content \<Rightarrow>
                   (case JSON_parse content of
                      None \<Rightarrow> (Inl FailedToLoadConfig, s2)
                    | Some j \<Rightarrow>
                        (case config_of_json j of
                           None \<Rightarrow> (Inl NotAConfig, s2)
                         | Some c \<Rightarrow> (Inr c, s2)))))"

text \<open>
  \<open>mkdirSync\<close> and \<open>writeFileSync\<close> throw when the operating system refuses; nothing
  catches that. A failure of \<open>chmodSync\<close> is caught and ignored.
\<close>

definition saveConfig :: "host \<Rightarrow> state \<Rightarrow> config \<Rightarrow> (failure + unit) \<times> state" where
  "saveConfig h s config =
     (let configDir = getConfigDir h;
          configPath = getConfigPath h;
          s1 = s\<lparr>fsLog := fsLog s @ [ExistsSync configDir]\<rparr>;
          needDir = (\<not> existsSync s configDir);
          s2 = (if needDir then s1\<lparr>fsLog := fsLog s1 @ [MkdirSync configDir]\<rparr> else s1)
      in if needDir \<and> \<not> diskWritable h then (Inl IOError, s2)
         else
           (let s3 = (if needDir then s2\<lparr>dirs := insert configDir (dirs s2)\<rparr> else s2);
                content = JSON_stringify (json_of_config config);
                s4 = s3\<lparr>fsLog := fsLog s3 @ [WriteFileSync configPath content]\<rparr>
            in if \<not> diskWritable h then (Inl IOError, s4)
               else
                 (let s5 = s4\<lparr>files := (files s4)(configPath \<mapsto> content)\<rparr>
                  in if platform h \<noteq> ''win32'' then
                       (let s6 = s5\<lparr>fsLog := fsLog s5 @ [ChmodSync configPath 384]\<rparr>
                        in if chmodAllowed h
                           then (Inr (), s6\<lparr>modes := (modes s6)(configPath \<mapsto> 384)\<rparr>)
                           else (Inr (), s6))
                     else (Inr (), s5))))"

section \<open>OS keychain (utils/keychain.ts)\<close>

text \<open>\<open>vault h = None\<close>: \<open>keytar.getPassword\<close> throws.\<close>

definition isKeychainAvailable :: "host \<Rightarrow> state \<Rightarrow> bool \<times> state" where
  "isKeychainAvailable h s =
     (case keytarAvailable s of
        Some b \<Rightarrow> (b, s)
      | None \<Rightarrow>
          (let s1 = s\<lparr>vaultLog := vaultLog s @ [(SERVICE_NAME, ''test'')]\<rparr>
           in case vault h of
                Some v \<Rightarrow> (True, s1\<lparr>keytarAvailable := Some True\<rparr>)
              | None \<Rightarrow> (False, s1\<lparr>keytarAvailable := Some False\<rparr>)))"

definition getApiKeySecret :: "host \<Rightarrow> state \<Rightarrow> string option \<times> state" where
  "getApiKeySecret h s =
     (case isKeychainAvailable h s of
        (available, s1) \<Rightarrow>
          if \<not> available then (None, s1)
          else
            (let s2 = s1\<lparr>vaultLog := vaultLog s1 @ [(SERVICE_NAME, KEY_NAME)]\<rparr>
             in case vault h of
                  None \<Rightarrow> (None, s2)
                | Some v \<Rightarrow> (v (SERVICE_NAME, KEY_NAME), s2)))"

section \<open>API client (utils/apiClient.ts)\<close>

definition BASE_URL :: string where
  "BASE_URL = ''https://api.assay.cirrusly-clever.com''"

definition sleep :: "int option \<Rightarrow> state \<Rightarrow> state" where
  "sleep ms s = s\<lparr>clock := clock s + timerDelay ms\<rparr>"

definition getApiKey :: "host \<Rightarrow> state \<Rightarrow> (failure + string option) \<times> state" where
  "getApiKey h s =
     (if truthy (env h ''ASSAY_API_KEY'') then (Inr (env h ''ASSAY_API_KEY''), s)
      else
        (case loadConfig h s of
           (Inl e, s1) \<Rightarrow> (Inl e, s1)
         | (Inr config, s1) \<Rightarrow>
             if \<not> truthy (keyId config) then (Inr None, s1)
             else
               (case getApiKeySecret h s1 of
                  (keySecret, s2) \<Rightarrow>
                    if \<not> truthy keySecret then (Inr None, s2)
                    else (Inr (Some (''ask_live_'' @ the (keyId config) @ ''_'' @ the keySecret)), s2))))"

text \<open>
  \<open>checkExpiration\<close>: \<open>toTime\<close> is \<open>new Date(s).getTime()\<close>, with \<open>None\<close> for \<open>NaN\<close>,
  against which both comparisons are false. A \<open>message\<close> stands for the coloured line
  of text the source builds.
\<close>

record expiration =
  expired :: bool
  expiringSoon :: bool
  message :: "message option"

definition checkExpiration :: "(string \<Rightarrow> int option) \<Rightarrow> int \<Rightarrow> string option \<Rightarrow> expiration" where
  "checkExpiration toTime now expiresAt =
     (if \<not> truthy expiresAt then \<lparr>expired = False, expiringSoon = False, message = None\<rparr>
      else
        (case toTime (the expiresAt) of
           None \<Rightarrow> \<lparr>expired = False, expiringSoon = False, message = None\<rparr>
         | Some expires \<Rightarrow>
             (let diff = expires - now;
                  thirtyMinutes = 30 * 60 * 1000
              in if diff \<le> 0
                 then \<lparr>expired = True, expiringSoon = False, message = Some ApiKeyExpiredMessage\<rparr>
                 else if diff < thirtyMinutes
                 then \<lparr>expired = False, expiringSoon = True,
                       message = Some (ApiKeyExpiresInMessage (diff div (60 * 1000)))\<rparr>
                 else \<lparr>expired = False, expiringSoon = False, message = None\<rparr>)))"

text \<open>
  The instance made by \<open>axios.create\<close>: a call's config is laid over the instance
  defaults (\<open>baseURL\<close>, \<open>timeout\<close>, the \<open>Content-Type\<close> header); a property the axios
  library does not know, such as \<open>__retryCount\<close>, is carried along.
\<close>

definition mergeConfig :: "request_config \<Rightarrow> request_config" where
  "mergeConfig config =
     config\<lparr>baseURL := (case baseURL config of None \<Rightarrow> Some BASE_URL | Some b \<Rightarrow> Some b),
            timeout := (case timeout config of None \<Rightarrow> Some 30000 | Some t \<Rightarrow> Some t),
            headers := (if map_of (headers config) ''Content-Type'' = None
                        then (''Content-Type'', ''application/json'') # headers config
                        else headers config)\<rparr>"

text \<open>Where axios sends a request: \<open>buildFullPath\<close>, \<open>isAbsoluteURL\<close>, \<open>combineURLs\<close>.\<close>

definition isAlpha :: "char \<Rightarrow> bool" where
  "isAlpha c = ((97 \<le> (of_char c :: nat) \<and> (of_char c :: nat) \<le> 122)
                \<or> (65 \<le> (of_char c :: nat) \<and> (of_char c :: nat) \<le> 90))"

definition isSchemeChar :: "char \<Rightarrow> bool" where
  "isSchemeChar c = (isAlpha c \<or> isDecDigit c \<or> c = CHR ''+'' \<or> c = CHR ''-'' \<or> c = CHR ''.'')"

definition isAbsoluteURL :: "string \<Rightarrow> bool" where
  "isAbsoluteURL u =
     (take 2 u = ''//''
      \<or> (case u of [] \<Rightarrow> False
          | c # cs \<Rightarrow> isAlpha c \<and> take 3 (dropWhile isSchemeChar cs) = ''://''))"

definition combineURLs :: "string \<Rightarrow> string \<Rightarrow> string" where
  "combineURLs b r =
     (if r = [] then b
      else (if take 2 (rev b) = ''//'' then rev (drop 2 (rev b))
            else if take 1 (rev b) = ''/'' then rev (drop 1 (rev b))
            else b)
           @ ''/'' @ dropWhile (\<lambda>c. c = CHR ''/'') r)"

definition buildFullPath :: "request_config \<Rightarrow> string" where
  "buildFullPath config =
     (case baseURL config of
        None \<Rightarrow> url config
      | Some b \<Rightarrow> if b \<noteq> [] \<and> \<not> isAbsoluteURL (url config) then combineURLs b (url config)
                  else url config)"

text \<open>The request interceptor (apiClient.ts, lines 90 to 110).\<close>

definition requestInterceptor ::
    "host \<Rightarrow> state \<Rightarrow> request_config \<Rightarrow> (failure + request_config) \<times> state" where
  "requestInterceptor h s config =
     (case getApiKey h s of
        (Inl e, s1) \<Rightarrow> (Inl e, s1)
      | (Inr apiKey, s1) \<Rightarrow>
          if \<not> truthy apiKey then (Inl NoApiKeyFound, s1)
          else
            (case loadConfig h s1 of
               (Inl e, s2) \<Rightarrow> (Inl e, s2)
             | (Inr appConfig, s2) \<Rightarrow>
                 (let expirationCheck =
                        checkExpiration (dateTime h) (clock s2) (apiKeyExpiresAt appConfig)
                  in if expired expirationCheck then (Inl ApiKeyExpired, s2)
                     else
                       (let s3 = (if expiringSoon expirationCheck \<and> message expirationCheck \<noteq> None
                                  then s2\<lparr>console := console s2 @ [the (message expirationCheck)]\<rparr>
                                  else s2)
                        in (Inr (config\<lparr>headers :=
                                   AList.update ''X-API-Key'' (the apiKey) (headers config)\<rparr>),
                            s3)))))"

text \<open>The adapter: the request goes on the wire and the server's n-th reply comes back; a
  status outside 200 to 299 rejects.\<close>

definition dispatchRequest ::
    "host \<Rightarrow> state \<Rightarrow> request_config \<Rightarrow> (error + response) \<times> state" where
  "dispatchRequest h s config =
     (let s1 = s\<lparr>sent := sent s @ [config]\<rparr>
      in case replies h (length (sent s)) of
           NoReply \<Rightarrow> (Inl (AxiosError config None), s1)
         | Reply r \<Rightarrow>
             if 200 \<le> respStatus r \<and> respStatus r < 300 then (Inr r, s1)
             else (Inl (AxiosError config (Some r)), s1))"

text \<open>The response interceptor's first handler (lines 114 to 123): the Config it loads and
  assigns to is dropped.\<close>

definition onFulfilled :: "host \<Rightarrow> state \<Rightarrow> response \<Rightarrow> (error + response) \<times> state" where
  "onFulfilled h s response =
     (let expiresAt = map_of (respHeaders response) ''x-api-key-expires-at''
      in if truthy expiresAt then
           (case loadConfig h s of
              (Inl e, s1) \<Rightarrow> (Inl (Error e), s1)
            | (Inr config, s1) \<Rightarrow> (Inr response, s1))
         else (Inr response, s))"

text \<open>The wait before a retry (lines 127 to 129); \<open>now1\<close> and \<open>now2\<close> are the two readings
  of \<open>Date.now()\<close>. The numbers are integers: where a double would round (beyond
  \<open>2 ^ 53\<close>) the difference lies far outside the interval that \<open>Math.min\<close> and
  \<open>Math.max\<close> cut it to, so the result is the same.\<close>

definition waitMs :: "string option \<Rightarrow> int \<Rightarrow> int \<Rightarrow> int option" where
  "waitMs resetHeader now1 now2 =
     (let resetTime = (if truthy resetHeader
                       then map_option (\<lambda>n. n * 1000) (parseInt (the resetHeader))
                       else Some (now1 + 60000))
      in map_option (\<lambda>t. max (min (t - now2) 60000) 1000) resetTime)"

definition ceilSeconds :: "int \<Rightarrow> int" where
  "ceilSeconds ms = - ((- ms) div 1000)"

definition retryCountOf :: "request_config \<Rightarrow> nat" where
  "retryCountOf config = (case retryCount config of None \<Rightarrow> 0 | Some n \<Rightarrow> n)"

text \<open>
  \<open>client.request\<close> runs the request interceptor, the adapter and the response
  interceptor; a rejection of any of the first two reaches the response interceptor's
  second handler (lines 124 to 142), which calls \<open>client.request\<close> again.
\<close>

function request :: "host \<Rightarrow> state \<Rightarrow> request_config \<Rightarrow> (error + response) \<times> state"
  and onRejected :: "host \<Rightarrow> state \<Rightarrow> error \<Rightarrow> (error + response) \<times> state"
where
  "request h s config0 =
     (case requestInterceptor h s (mergeConfig config0) of
        (Inl e, s1) \<Rightarrow> onRejected h s1 (Error e)
      | (Inr config, s1) \<Rightarrow>
          (case dispatchRequest h s1 config of
             (Inr response, s2) \<Rightarrow> onFulfilled h s2 response
           | (Inl error, s2) \<Rightarrow> onRejected h s2 error))"
| "onRejected h s error =
     (case error of
        AxiosError econfig (Some r) \<Rightarrow>
          if respStatus r = 429 then
            (let resetHeader = map_of (respHeaders r) ''x-ratelimit-reset'';
                 wait = waitMs resetHeader (clock s) (clock s);
                 count = retryCountOf econfig
             in if count < 3 then
                  request h
                    (sleep wait
                       (s\<lparr>console := console s @ [RateLimitedMessage (map_option ceilSeconds wait)]\<rparr>))
                    (econfig\<lparr>retryCount := Some (count + 1)\<rparr>)
                else (Inl error, s))
          else (Inl error, s)
      | _ \<Rightarrow> (Inl error, s))"
  by pat_completeness auto
termination
  by (relation "measure (\<lambda>x. case x of
          Inl (h, s, c) \<Rightarrow> 2 * (3 - retryCountOf c) + 1
        | Inr (h, s, e) \<Rightarrow> (case e of AxiosError c r \<Rightarrow> 2 * (3 - retryCountOf c) | _ \<Rightarrow> 0))")
     (auto simp: requestInterceptor_def dispatchRequest_def mergeConfig_def retryCountOf_def Let_def
           split: prod.splits sum.splits if_splits reply.splits option.splits)

declare request.simps [simp del] onRejected.simps [simp del]

text \<open>What the command handlers call: \<open>client.get(url, {params})\<close>, a new config with no
  \<open>__retryCount\<close>.\<close>

definition client_get ::
    "host \<Rightarrow> state \<Rightarrow> string \<Rightarrow> (string \<times> string) list \<Rightarrow> (error + response) \<times> state" where
  "client_get h s u ps =
     request h s
       \<lparr>httpMethod = ''get'', url = u, params = ps, baseURL = None, timeout = None,
        headers = [], retryCount = None\<rparr>"

text \<open>The paths the command handlers ask for (commands/auth.ts, documents.ts, themes.ts).\<close>

datatype endpoint =
    Me
  | DocumentsList
  | DocumentsGet string
  | DocumentsSummary string
  | DocumentsSearch
  | ThemesList

definition endpointPath :: "endpoint \<Rightarrow> string" where
  "endpointPath e =
     (case e of
        Me \<Rightarrow> ''/api/v1/me''
      | DocumentsList \<Rightarrow> ''/api/v1/documents''
      | DocumentsGet documentId \<Rightarrow> ''/api/v1/documents/'' @ documentId
      | DocumentsSummary documentId \<Rightarrow> ''/api/v1/documents/'' @ documentId @ ''/summary''
      | DocumentsSearch \<Rightarrow> ''/api/v1/documents/search''
      | ThemesList \<Rightarrow> ''/api/v1/themes'')"

section \<open>Vocabulary of the statements\<close>

text \<open>The text of one member of an object whose values are strings, as \<open>stringify\<close>
  writes it.\<close>

definition memberText :: "string \<times> string \<Rightarrow> string" where
  "memberText p = quoteJSONString (fst p) @ '': '' @ quoteJSONString (snd p)"

text \<open>ASCII strings: every character below 128. The files of the state hold text; the
  \<open>utf-8\<close> codec of \<open>readFileSync\<close> and \<open>writeFileSync\<close> is the identity on such text.\<close>

definition asciiString :: "string \<Rightarrow> bool" where
  "asciiString s = list_all (\<lambda>c. (of_char c :: nat) < 128) s"

definition asciiConfig :: "config \<Rightarrow> bool" where
  "asciiConfig c =
     ((case keyId c of None \<Rightarrow> True | Some k \<Rightarrow> asciiString k)
      \<and> (case apiKeyExpiresAt c of None \<Rightarrow> True | Some e \<Rightarrow> asciiString e)
      \<and> asciiString (baseUrl c))"

text \<open>A credential that holds until a given time: the Config loads, a key resolves from
  the environment or from the key identifier and a vault not known to be unavailable, and
  the recorded expiry, if any, is later than that time.\<close>

definition keyResolves :: "host \<Rightarrow> state \<Rightarrow> config \<Rightarrow> bool" where
  "keyResolves h s c =
     (truthy (env h ''ASSAY_API_KEY'')
      \<or> (truthy (keyId c) \<and> keytarAvailable s \<noteq> Some False
          \<and> (case vault h of None \<Rightarrow> False | Some v \<Rightarrow> truthy (v (SERVICE_NAME, KEY_NAME)))))"

definition credentialHolds :: "host \<Rightarrow> state \<Rightarrow> config \<Rightarrow> int \<Rightarrow> bool" where
  "credentialHolds h s c until =
     (fst (loadConfig h s) = Inr c \<and> keyResolves h s c
      \<and> \<not> expired (checkExpiration (dateTime h) until (apiKeyExpiresAt c)))"

section \<open>Scenarios\<close>

text \<open>A Linux host with a working vault that holds the secret \<open>s3cret\<close>, and a process
  that starts on 2026-01-01 at midnight UTC with nothing sent or logged. \<open>posixJoin\<close>
  stands for \<open>path.join\<close> on the paths used here.\<close>

definition posixJoin :: "string \<Rightarrow> string \<Rightarrow> string" where
  "posixJoin a b = a @ ''/'' @ b"

definition tooManyRequests :: response where
  "tooManyRequests = \<lparr>respStatus = 429, respHeaders = [], respData = []\<rparr>"

definition okResponse :: response where
  "okResponse = \<lparr>respStatus = 200, respHeaders = [], respData = ''{}''\<rparr>"

definition scenarioDate :: "string \<Rightarrow> int option" where
  "scenarioDate t =
     (if t = ''2025-12-31T23:59:00.000Z'' then Some 1767225540000
      else if t = ''2026-01-01T00:00:30.000Z'' then Some 1767225630000
      else if t = ''2026-01-01T00:20:00.000Z'' then Some 1767226800000
      else if t = ''2026-01-01T01:00:00.000Z'' then Some 1767229200000
      else None)"

definition scenarioHost :: "(string \<Rightarrow> string option) \<Rightarrow> (nat \<Rightarrow> reply) \<Rightarrow> host" where
  "scenarioHost e rs =
     \<lparr>env = e, platform = ''linux'', homedir = ''/home/user'', pathJoin = posixJoin,
      diskWritable = True, chmodAllowed = True,
      vault = Some (\<lambda>a. if a = (''assay-cli'', ''api-key-secret'') then Some ''s3cret'' else None),
      dateTime = scenarioDate,
      replies = rs\<rparr>"

definition scenarioState :: "(string \<Rightarrow> string option) \<Rightarrow> state" where
  "scenarioState fs =
     \<lparr>files = fs, dirs = {}, modes = (\<lambda>p. None), keytarAvailable = None,
      clock = 1767225600000, sent = [], console = [], vaultLog = [], fsLog = []\<rparr>"

definition envWithKey :: "string \<Rightarrow> string option" where
  "envWithKey n = (if n = ''ASSAY_API_KEY'' then Some ''ask_live_abc123_s3cret'' else None)"

definition envEmptyKey :: "string \<Rightarrow> string option" where
  "envEmptyKey n = (if n = ''ASSAY_API_KEY'' then Some [] else None)"

definition envBaseUrl :: "string \<Rightarrow> string option" where
  "envBaseUrl n = (if n = ''ASSAY_BASE_URL'' then Some ''https://staging.example.test'' else None)"

definition envNone :: "string \<Rightarrow> string option" where
  "envNone n = None"

definition noFiles :: "string \<Rightarrow> string option" where
  "noFiles p = None"

definition configFile :: "config \<Rightarrow> string \<Rightarrow> string option" where
  "configFile c p =
     (if p = ''/home/user/.assay/config.json'' then Some (JSON_stringify (json_of_config c))
      else None)"

definition storedConfig :: "string option \<Rightarrow> string option \<Rightarrow> config" where
  "storedConfig k e =
     \<lparr>keyId = k, apiKeyExpiresAt = e,
      baseUrl = ''https://us-east4-pdfsummaries.cloudfunctions.net/api'', outputFormat = Json\<rparr>"

definition threeThenOk :: "nat \<Rightarrow> reply" where
  "threeThenOk n = (if n < 3 then Reply tooManyRequests else Reply okResponse)"

definition alwaysTooMany :: "nat \<Rightarrow> reply" where
  "alwaysTooMany n = Reply tooManyRequests"

definition alwaysOk :: "nat \<Rightarrow> reply" where
  "alwaysOk n = Reply okResponse"

section \<open>JSON: reading back what was written\<close>

lemma hexValue_hexDigit: "d < 16 \<Longrightarrow> hexValue (hexDigit d) = Some d"
proof -
  assume "d < 16"
  then have "d = 0 \<or> d = 1 \<or> d = 2 \<or> d = 3 \<or> d = 4 \<or> d = 5 \<or> d = 6 \<or> d = 7
      \<or> d = 8 \<or> d = 9 \<or> d = 10 \<or> d = 11 \<or> d = 12 \<or> d = 13 \<or> d = 14 \<or> d = 15"
    by arith
  then show ?thesis
    by (elim disjE) (simp_all add: hexValue_def hexDigit_def digitValue_def)
qed

lemma hex4_control: "n < 32 \<Longrightarrow> hex4 (CHR ''0'') (CHR ''0'') (hexDigit (n div 16)) (hexDigit (n mod 16)) = Some n"
proof -
  assume n: "n < 32"
  have z: "hexValue (CHR ''0'') = Some 0" by (simp add: hexValue_def digitValue_def)
  have a: "hexValue (hexDigit (n div 16)) = Some (n div 16)" using n by (intro hexValue_hexDigit) simp
  have b: "hexValue (hexDigit (n mod 16)) = Some (n mod 16)" by (intro hexValue_hexDigit) simp
  show ?thesis by (simp add: hex4_def z a b)
qed

lemma parseChars_quoteChar:
  "parseChars (quoteChar c @ rest) = map_option (\<lambda>(s, r). (c # s, r)) (parseChars rest)"
proof (cases "(of_char c :: nat) < 32")
  case True
  have ne: "c \<noteq> DQ" "c \<noteq> BS" using True by auto
  show ?thesis
  proof (cases "c = CHR 0x08 \<or> c = CHR 0x09 \<or> c = CHR 0x0A \<or> c = CHR 0x0C \<or> c = CHR 0x0D")
    case True
    then show ?thesis by (auto simp: quoteChar_def unescape_def)
  next
    case False
    with True ne show ?thesis
      by (simp add: quoteChar_def hex4_control)
  qed
next
  case False
  then show ?thesis
    by (auto simp: quoteChar_def unescape_def)
qed

lemma parseChars_escapeString:
  "parseChars (escapeString s @ DQ # rest) = Some (s, rest)"
proof (induction s)
  case Nil
  show ?case by (simp add: escapeString_def)
next
  case (Cons c s)
  have "escapeString (c # s) @ DQ # rest = quoteChar c @ (escapeString s @ DQ # rest)"
    by (simp add: escapeString_def)
  then show ?case using Cons.IH by (simp add: parseChars_quoteChar)
qed

lemma skipWs_DQ: "skipWs (DQ # r) = DQ # r"
  by (simp add: skipWs_def isJsonWs_def)

lemma skipWs_indent: "skipWs (LF # CHR '' '' # CHR '' '' # DQ # r) = DQ # r"
  by (simp add: skipWs_def isJsonWs_def)

lemma skipWs_close: "skipWs (LF # CHR ''}'' # r) = CHR ''}'' # r"
  by (simp add: skipWs_def isJsonWs_def)

lemma parseValue_string:
  "parseValue (Suc n) (CHR '' '' # quoteJSONString v @ r) = Some (JStr v, r)"
  by (simp add: skipWs_def isJsonWs_def quoteJSONString_def parseChars_escapeString)

lemma parseMembers_one:
  "parseMembers (Suc (Suc n)) (memberText p @ LF # CHR ''}'' # rest) = Some ([(fst p, JStr (snd p))], rest)"
proof -
  have key: "parseChars (escapeString (fst p) @ DQ # CHR '':'' # CHR '' '' # quoteJSONString (snd p) @ LF # CHR ''}'' # rest)
             = Some (fst p, CHR '':'' # CHR '' '' # quoteJSONString (snd p) @ LF # CHR ''}'' # rest)"
    by (rule parseChars_escapeString)
  have colon: "skipWs (CHR '':'' # CHR '' '' # quoteJSONString (snd p) @ LF # CHR ''}'' # rest)
             = CHR '':'' # CHR '' '' # quoteJSONString (snd p) @ LF # CHR ''}'' # rest"
    by (simp add: skipWs_def isJsonWs_def)
  have val: "parseValue (Suc n) (CHR '' '' # quoteJSONString (snd p) @ LF # CHR ''}'' # rest)
             = Some (JStr (snd p), LF # CHR ''}'' # rest)"
    by (rule parseValue_string)
  have shape: "memberText p @ LF # CHR ''}'' # rest
             = DQ # escapeString (fst p) @ DQ # CHR '':'' # CHR '' '' # quoteJSONString (snd p) @ LF # CHR ''}'' # rest"
    by (simp add: memberText_def quoteJSONString_def)
  show ?thesis
    unfolding shape
    by (simp add: skipWs_DQ key colon val skipWs_close del: parseValue.simps)
qed

lemma parseMembers_more:
  assumes "parseMembers (Suc n) (DQ # r) = Some (ms, rest)"
  shows "parseMembers (Suc (Suc n)) (memberText p @ CHR '','' # LF # CHR '' '' # CHR '' '' # DQ # r)
         = Some ((fst p, JStr (snd p)) # ms, rest)"
proof -
  let ?tail = "CHR '','' # LF # CHR '' '' # CHR '' '' # DQ # r"
  have key: "parseChars (escapeString (fst p) @ DQ # CHR '':'' # CHR '' '' # quoteJSONString (snd p) @ ?tail)
             = Some (fst p, CHR '':'' # CHR '' '' # quoteJSONString (snd p) @ ?tail)"
    by (rule parseChars_escapeString)
  have colon: "skipWs (CHR '':'' # CHR '' '' # quoteJSONString (snd p) @ ?tail)
             = CHR '':'' # CHR '' '' # quoteJSONString (snd p) @ ?tail"
    by (simp add: skipWs_def isJsonWs_def)
  have val: "parseValue (Suc n) (CHR '' '' # quoteJSONString (snd p) @ ?tail) = Some (JStr (snd p), ?tail)"
    by (rule parseValue_string)
  have comma: "skipWs ?tail = ?tail"
    by (simp add: skipWs_def isJsonWs_def)
  have nxt: "parseMembers (Suc n) (LF # CHR '' '' # CHR '' '' # DQ # r) = parseMembers (Suc n) (DQ # r)"
    by (simp add: skipWs_indent skipWs_DQ del: parseValue.simps)
  have shape: "memberText p @ ?tail
             = DQ # escapeString (fst p) @ DQ # CHR '':'' # CHR '' '' # quoteJSONString (snd p) @ ?tail"
    by (simp add: memberText_def quoteJSONString_def)
  show ?thesis
    unfolding shape
    by (subst parseMembers.simps(2))
       (simp add: skipWs_DQ key colon val comma nxt assms del: parseValue.simps parseMembers.simps)
qed

lemma joinWith_Cons2:
  "ps \<noteq> [] \<Longrightarrow> joinWith sep (x # ps) = x @ sep @ joinWith sep ps"
  by (cases ps) simp_all

lemma memberText_DQ: "\<exists>r. memberText p = DQ # r"
  by (simp add: memberText_def quoteJSONString_def)

lemma joinWith_memberText_DQ:
  "ps \<noteq> [] \<Longrightarrow> \<exists>r. joinWith sep (map memberText ps) @ t = DQ # r"
proof (cases ps)
  case Nil
  assume "ps \<noteq> []"
  with Nil show ?thesis by simp
next
  case (Cons p qs)
  obtain r where r: "memberText p = DQ # r" using memberText_DQ by blast
  show ?thesis
  proof (cases qs)
    case Nil
    with Cons r show ?thesis by simp
  next
    case (Cons q qs')
    with \<open>ps = p # qs\<close> r show ?thesis by simp
  qed
qed

lemma parseMembers_flat:
  "ps \<noteq> [] \<Longrightarrow> length ps \<le> n \<Longrightarrow>
   parseMembers (Suc n)
     (joinWith ('','' @ [LF] @ ''  '') (map memberText ps) @ LF # CHR ''}'' # rest)
   = Some (map (\<lambda>p. (fst p, JStr (snd p))) ps, rest)"
proof (induction ps arbitrary: n)
  case Nil
  then show ?case by simp
next
  case (Cons p ps)
  from Cons.prems obtain m where n: "n = Suc m" and m: "length ps \<le> m"
    by (cases n) auto
  show ?case
  proof (cases "ps = []")
    case True
    then show ?thesis unfolding n by (simp add: parseMembers_one del: parseMembers.simps parseValue.simps)
  next
    case False
    obtain r where r: "joinWith ('','' @ [LF] @ ''  '') (map memberText ps) @ LF # CHR ''}'' # rest = DQ # r"
      using joinWith_memberText_DQ [OF False] by blast
    have ih: "parseMembers (Suc m) (DQ # r) = Some (map (\<lambda>p. (fst p, JStr (snd p))) ps, rest)"
      using Cons.IH [OF False m] r by simp
    have shape: "joinWith ('','' @ [LF] @ ''  '') (map memberText (p # ps)) @ LF # CHR ''}'' # rest
          = memberText p @ CHR '','' # LF # CHR '' '' # CHR '' '' # DQ # r"
      using False r by (simp add: joinWith_Cons2)
    show ?thesis
      unfolding n shape using parseMembers_more [OF ih] by simp
  qed
qed

lemma length_joinWith_memberText:
  "length ps \<le> length (joinWith sep (map memberText ps))"
proof (induction ps)
  case Nil
  show ?case by simp
next
  case (Cons p ps)
  obtain r where r: "memberText p = DQ # r" using memberText_DQ by blast
  show ?case
  proof (cases "ps = []")
    case True
    with r show ?thesis by simp
  next
    case False
    with Cons r show ?thesis by (simp add: joinWith_Cons2)
  qed
qed

lemma stringify_flat:
  "ps \<noteq> [] \<Longrightarrow>
   JSON_stringify (JObj (map (\<lambda>p. (fst p, JStr (snd p))) ps))
   = CHR ''{'' # LF # CHR '' '' # CHR '' '' # joinWith ('','' @ [LF] @ ''  '') (map memberText ps) @ LF # CHR ''}'' # []"
  by (simp add: JSON_stringify_def comp_def memberText_def [abs_def])

lemma JSON_parse_stringify_flat:
  assumes "ps \<noteq> []"
  shows "JSON_parse (JSON_stringify (JObj (map (\<lambda>p. (fst p, JStr (snd p))) ps)))
         = Some (JObj (map (\<lambda>p. (fst p, JStr (snd p))) ps))"
proof -
  let ?body = "joinWith ('','' @ [LF] @ ''  '') (map memberText ps)"
  let ?text = "CHR ''{'' # LF # CHR '' '' # CHR '' '' # ?body @ LF # CHR ''}'' # []"
  obtain r where r: "?body @ LF # CHR ''}'' # [] = DQ # r"
    using joinWith_memberText_DQ [OF assms] by blast
  have len: "length ?text = Suc (Suc (Suc (Suc (Suc (length ?body + 1)))))" by simp
  have fuel: "length ps \<le> Suc (Suc (Suc (Suc (length ?body))))"
    using length_joinWith_memberText [of ps] by (simp add: le_SucI)
  have mem: "parseMembers (Suc (Suc (Suc (Suc (Suc (length ?body)))))) (DQ # r)
             = Some (map (\<lambda>p. (fst p, JStr (snd p))) ps, [])"
    using parseMembers_flat [OF assms fuel, of "[]"] r by simp
  have open_ws: "skipWs (CHR ''{'' # LF # CHR '' '' # CHR '' '' # DQ # r) = CHR ''{'' # LF # CHR '' '' # CHR '' '' # DQ # r"
    by (simp add: skipWs_def isJsonWs_def)
  have val: "parseValue (length ?text) ?text = Some (JObj (map (\<lambda>p. (fst p, JStr (snd p))) ps), [])"
    unfolding len using r mem
    by (simp add: open_ws skipWs_indent del: parseMembers.simps)
  show ?thesis
    unfolding stringify_flat [OF assms] JSON_parse_def val by (simp add: skipWs_def)
qed

lemma output_format_roundtrip:
  "output_format_of_string (string_of_output_format f) = Some f"
  by (cases f) (simp_all add: output_format_of_string_def string_of_output_format_def)

lemma config_of_json_of_config: "config_of_json (json_of_config c) = Some c"
  by (cases "keyId c"; cases "apiKeyExpiresAt c")
     (simp_all add: config_of_json_def json_of_config_def configProperties_def getProp_def
        optionalString_def output_format_roundtrip)

lemma configProperties_nonempty: "configProperties c \<noteq> []"
  by (simp add: configProperties_def)

lemma JSON_parse_config:
  "JSON_parse (JSON_stringify (json_of_config c)) = Some (json_of_config c)"
  unfolding json_of_config_def
  by (rule JSON_parse_stringify_flat [OF configProperties_nonempty])

lemma loadConfig_of_file:
  "files s (getConfigPath h) = Some (JSON_stringify (json_of_config c)) \<Longrightarrow>
   fst (loadConfig h s) = Inr c"
  by (simp add: loadConfig_def existsSync_def Let_def JSON_parse_config config_of_json_of_config)

lemma saveConfig_files:
  "saveConfig h s c = (Inr u, s') \<Longrightarrow>
   files s' (getConfigPath h) = Some (JSON_stringify (json_of_config c))"
  by (auto simp: saveConfig_def Let_def split: if_splits)

section \<open>What the steps of a request change\<close>

lemma loadConfig_frame:
  "sent (snd (loadConfig h s)) = sent s"
  "console (snd (loadConfig h s)) = console s"
  "clock (snd (loadConfig h s)) = clock s"
  "files (snd (loadConfig h s)) = files s"
  "dirs (snd (loadConfig h s)) = dirs s"
  "vaultLog (snd (loadConfig h s)) = vaultLog s"
  "keytarAvailable (snd (loadConfig h s)) = keytarAvailable s"
  by (simp_all add: loadConfig_def Let_def split: option.splits)

lemma loadConfig_result:
  "files s' = files s \<Longrightarrow> dirs s' = dirs s \<Longrightarrow> fst (loadConfig h s') = fst (loadConfig h s)"
  by (simp add: loadConfig_def Let_def existsSync_def split: option.splits)

lemma getApiKeySecret_frame:
  "sent (snd (getApiKeySecret h s)) = sent s"
  "console (snd (getApiKeySecret h s)) = console s"
  "clock (snd (getApiKeySecret h s)) = clock s"
  "files (snd (getApiKeySecret h s)) = files s"
  "dirs (snd (getApiKeySecret h s)) = dirs s"
  by (simp_all add: getApiKeySecret_def isKeychainAvailable_def Let_def split: option.splits)

lemma getApiKey_frame:
  "sent (snd (getApiKey h s)) = sent s"
  "console (snd (getApiKey h s)) = console s"
  "clock (snd (getApiKey h s)) = clock s"
  "files (snd (getApiKey h s)) = files s"
  "dirs (snd (getApiKey h s)) = dirs s"
proof -
  obtain r s1 where l: "loadConfig h s = (r, s1)" by (cases "loadConfig h s")
  have f1: "sent s1 = sent s" "console s1 = console s" "clock s1 = clock s" "files s1 = files s" "dirs s1 = dirs s"
    using loadConfig_frame [of h s] l by simp_all
  obtain k s2 where g: "getApiKeySecret h s1 = (k, s2)" by (cases "getApiKeySecret h s1")
  have f2: "sent s2 = sent s1" "console s2 = console s1" "clock s2 = clock s1" "files s2 = files s1" "dirs s2 = dirs s1"
    using getApiKeySecret_frame [of h s1] g by simp_all
  show "sent (snd (getApiKey h s)) = sent s"
    "console (snd (getApiKey h s)) = console s"
    "clock (snd (getApiKey h s)) = clock s"
    "files (snd (getApiKey h s)) = files s"
    "dirs (snd (getApiKey h s)) = dirs s"
    by (simp_all add: getApiKey_def l g f1 f2 split: sum.splits)
qed

lemma requestInterceptor_Inl:
  assumes "requestInterceptor h s c = (Inl e, s1)"
  shows "sent s1 = sent s" and "\<exists>ys. console s1 = console s @ ys"
proof -
  obtain a sa where g: "getApiKey h s = (a, sa)" by (cases "getApiKey h s")
  have fa: "sent sa = sent s" "console sa = console s" using getApiKey_frame [of h s] g by simp_all
  obtain b sb where l: "loadConfig h sa = (b, sb)" by (cases "loadConfig h sa")
  have fb: "sent sb = sent sa" "console sb = console sa" using loadConfig_frame [of h sa] l by simp_all
  from assms fa fb show "sent s1 = sent s"
    by (auto simp: requestInterceptor_def g l Let_def split: sum.splits if_splits)
  from assms fa fb show "\<exists>ys. console s1 = console s @ ys"
    by (auto simp: requestInterceptor_def g l Let_def split: sum.splits if_splits)
qed

lemma requestInterceptor_Inr:
  assumes "requestInterceptor h s c = (Inr c1, s1)"
  shows "sent s1 = sent s" and "\<exists>ys. console s1 = console s @ ys"
    and "\<exists>k. c1 = c\<lparr>headers := AList.update ''X-API-Key'' k (headers c)\<rparr>"
proof -
  obtain a sa where g: "getApiKey h s = (a, sa)" by (cases "getApiKey h s")
  have fa: "sent sa = sent s" "console sa = console s" using getApiKey_frame [of h s] g by simp_all
  obtain b sb where l: "loadConfig h sa = (b, sb)" by (cases "loadConfig h sa")
  have fb: "sent sb = sent sa" "console sb = console sa" using loadConfig_frame [of h sa] l by simp_all
  from assms fa fb show "sent s1 = sent s"
    by (auto simp: requestInterceptor_def g l Let_def split: sum.splits if_splits)
  from assms fa fb show "\<exists>ys. console s1 = console s @ ys"
    by (auto simp: requestInterceptor_def g l Let_def split: sum.splits if_splits)
  from assms show "\<exists>k. c1 = c\<lparr>headers := AList.update ''X-API-Key'' k (headers c)\<rparr>"
    by (auto simp: requestInterceptor_def g l Let_def split: sum.splits if_splits)
qed

lemma requestInterceptor_loads:
  assumes "requestInterceptor h s c = (Inr c1, s1)"
  shows "files s1 = files s" and "dirs s1 = dirs s" and "\<exists>cfg. fst (loadConfig h s) = Inr cfg"
proof -
  obtain a sa where g: "getApiKey h s = (a, sa)" by (cases "getApiKey h s")
  have fa: "files sa = files s" "dirs sa = dirs s" using getApiKey_frame [of h s] g by simp_all
  obtain b sb where l: "loadConfig h sa = (b, sb)" by (cases "loadConfig h sa")
  have fb: "files sb = files sa" "dirs sb = dirs sa" using loadConfig_frame [of h sa] l by simp_all
  have same: "fst (loadConfig h s) = b" using loadConfig_result [OF fa, of h] l by simp
  from assms fa fb show "files s1 = files s"
    by (auto simp: requestInterceptor_def g l Let_def split: sum.splits if_splits)
  from assms fa fb show "dirs s1 = dirs s"
    by (auto simp: requestInterceptor_def g l Let_def split: sum.splits if_splits)
  from assms same show "\<exists>cfg. fst (loadConfig h s) = Inr cfg"
    by (auto simp: requestInterceptor_def g l Let_def split: sum.splits if_splits)
qed

lemma onFulfilled_accepts:
  "fst (loadConfig h s) = Inr c \<Longrightarrow> fst (onFulfilled h s r) = Inr r"
  by (cases "loadConfig h s") (simp add: onFulfilled_def Let_def)

lemma onFulfilled_frame:
  "sent (snd (onFulfilled h s r)) = sent s"
  "console (snd (onFulfilled h s r)) = console s"
proof -
  obtain b sb where l: "loadConfig h s = (b, sb)" by (cases "loadConfig h s")
  have fb: "sent sb = sent s" "console sb = console s" using loadConfig_frame [of h s] l by simp_all
  show "sent (snd (onFulfilled h s r)) = sent s" "console (snd (onFulfilled h s r)) = console s"
    by (simp_all add: onFulfilled_def Let_def l fb split: sum.splits)
qed

lemma onFulfilled_result:
  "(\<exists>f. fst (onFulfilled h s r) = Inl (Error f)) \<or> fst (onFulfilled h s r) = Inr r"
  by (cases "loadConfig h s") (auto simp: onFulfilled_def Let_def split: sum.splits)

lemma onRejected_local: "onRejected h s (Error f) = (Inl (Error f), s)"
  by (simp add: onRejected.simps)

lemma retryCountOf_update [simp]:
  "retryCountOf (c\<lparr>headers := x\<rparr>) = retryCountOf c"
  "retryCountOf (c\<lparr>retryCount := Some n\<rparr>) = n"
  "retryCountOf (mergeConfig c) = retryCountOf c"
  by (simp_all add: retryCountOf_def mergeConfig_def)

lemma request_refused:
  "requestInterceptor h s (mergeConfig c) = (Inl f, s1) \<Longrightarrow> request h s c = (Inl (Error f), s1)"
  by (simp add: request.simps onRejected_local)

lemma request_429_retry:
  assumes rep: "replies h (length (sent s)) = Reply r"
    and st: "respStatus r = 429"
    and rc: "retryCountOf c < 3"
  shows "(\<exists>f s1. request h s c = (Inl (Error f), s1) \<and> sent s1 = sent s)
       \<or> (\<exists>c1 s'. request h s c = request h s' (c1\<lparr>retryCount := Some (Suc (retryCountOf c))\<rparr>)
             \<and> sent s' = sent s @ [c1] \<and> retryCountOf c1 = retryCountOf c)"
proof (cases "requestInterceptor h s (mergeConfig c)")
  case (Pair res s1)
  show ?thesis
  proof (cases res)
    case (Inl f)
    with Pair have ri: "requestInterceptor h s (mergeConfig c) = (Inl f, s1)" by simp
    have "request h s c = (Inl (Error f), s1)" by (rule request_refused [OF ri])
    moreover have "sent s1 = sent s" by (rule requestInterceptor_Inl(1) [OF ri])
    ultimately show ?thesis by blast
  next
    case (Inr c1)
    with Pair have ri: "requestInterceptor h s (mergeConfig c) = (Inr c1, s1)" by simp
    have s1: "sent s1 = sent s" by (rule requestInterceptor_Inr(1) [OF ri])
    obtain k where c1: "c1 = (mergeConfig c)\<lparr>headers := AList.update ''X-API-Key'' k (headers (mergeConfig c))\<rparr>"
      using requestInterceptor_Inr(3) [OF ri] by blast
    have rc1: "retryCountOf c1 = retryCountOf c" unfolding c1 by simp
    let ?s2 = "s1\<lparr>sent := sent s1 @ [c1]\<rparr>"
    have d: "dispatchRequest h s1 c1 = (Inl (AxiosError c1 (Some r)), ?s2)"
      using rep st s1 by (simp add: dispatchRequest_def Let_def)
    let ?w = "waitMs (map_of (respHeaders r) ''x-ratelimit-reset'') (clock ?s2) (clock ?s2)"
    let ?s3 = "sleep ?w (?s2\<lparr>console := console ?s2 @ [RateLimitedMessage (map_option ceilSeconds ?w)]\<rparr>)"
    have "request h s c = onRejected h ?s2 (AxiosError c1 (Some r))"
      by (simp add: request.simps ri d)
    also have "\<dots> = request h ?s3 (c1\<lparr>retryCount := Some (Suc (retryCountOf c))\<rparr>)"
      using st rc rc1 by (simp add: onRejected.simps Let_def)
    finally have eq: "request h s c = request h ?s3 (c1\<lparr>retryCount := Some (Suc (retryCountOf c))\<rparr>)" .
    have "sent ?s3 = sent s @ [c1]" by (simp add: sleep_def s1)
    with eq rc1 show ?thesis by blast
  qed
qed

lemma request_429_exhausted:
  assumes rep: "replies h (length (sent s)) = Reply r"
    and st: "respStatus r = 429"
    and rc: "\<not> retryCountOf c < 3"
  shows "(\<exists>f s1. request h s c = (Inl (Error f), s1) \<and> sent s1 = sent s)
       \<or> (\<exists>c1 s'. request h s c = (Inl (AxiosError c1 (Some r)), s')
             \<and> sent s' = sent s @ [c1] \<and> retryCountOf c1 = retryCountOf c)"
proof (cases "requestInterceptor h s (mergeConfig c)")
  case (Pair res s1)
  show ?thesis
  proof (cases res)
    case (Inl f)
    with Pair have ri: "requestInterceptor h s (mergeConfig c) = (Inl f, s1)" by simp
    have "request h s c = (Inl (Error f), s1)" by (rule request_refused [OF ri])
    moreover have "sent s1 = sent s" by (rule requestInterceptor_Inl(1) [OF ri])
    ultimately show ?thesis by blast
  next
    case (Inr c1)
    with Pair have ri: "requestInterceptor h s (mergeConfig c) = (Inr c1, s1)" by simp
    have s1: "sent s1 = sent s" by (rule requestInterceptor_Inr(1) [OF ri])
    obtain k where c1: "c1 = (mergeConfig c)\<lparr>headers := AList.update ''X-API-Key'' k (headers (mergeConfig c))\<rparr>"
      using requestInterceptor_Inr(3) [OF ri] by blast
    have rc1: "retryCountOf c1 = retryCountOf c" unfolding c1 by simp
    let ?s2 = "s1\<lparr>sent := sent s1 @ [c1]\<rparr>"
    have d: "dispatchRequest h s1 c1 = (Inl (AxiosError c1 (Some r)), ?s2)"
      using rep st s1 by (simp add: dispatchRequest_def Let_def)
    have "request h s c = onRejected h ?s2 (AxiosError c1 (Some r))"
      by (simp add: request.simps ri d)
    also have "\<dots> = (Inl (AxiosError c1 (Some r)), ?s2)"
      using st rc rc1 by (simp add: onRejected.simps Let_def)
    finally have eq: "request h s c = (Inl (AxiosError c1 (Some r)), ?s2)" .
    have "sent ?s2 = sent s @ [c1]" by (simp add: s1)
    with eq rc1 show ?thesis by blast
  qed
qed

lemma request_2xx:
  assumes rep: "replies h (length (sent s)) = Reply r"
    and st: "200 \<le> respStatus r" "respStatus r < 300"
  shows "(\<exists>f s1. request h s c = (Inl (Error f), s1) \<and> sent s1 = sent s)
       \<or> (\<exists>c1 s'. request h s c = (Inr r, s')
             \<and> sent s' = sent s @ [c1] \<and> retryCountOf c1 = retryCountOf c)"
proof (cases "requestInterceptor h s (mergeConfig c)")
  case (Pair res s1)
  show ?thesis
  proof (cases res)
    case (Inl f)
    with Pair have ri: "requestInterceptor h s (mergeConfig c) = (Inl f, s1)" by simp
    have "request h s c = (Inl (Error f), s1)" by (rule request_refused [OF ri])
    moreover have "sent s1 = sent s" by (rule requestInterceptor_Inl(1) [OF ri])
    ultimately show ?thesis by blast
  next
    case (Inr c1)
    with Pair have ri: "requestInterceptor h s (mergeConfig c) = (Inr c1, s1)" by simp
    have s1: "sent s1 = sent s" by (rule requestInterceptor_Inr(1) [OF ri])
    obtain k where c1: "c1 = (mergeConfig c)\<lparr>headers := AList.update ''X-API-Key'' k (headers (mergeConfig c))\<rparr>"
      using requestInterceptor_Inr(3) [OF ri] by blast
    have rc1: "retryCountOf c1 = retryCountOf c" unfolding c1 by simp
    let ?s2 = "s1\<lparr>sent := sent s1 @ [c1]\<rparr>"
    have d: "dispatchRequest h s1 c1 = (Inr r, ?s2)"
      using rep st s1 by (simp add: dispatchRequest_def Let_def)
    have eq: "request h s c = onFulfilled h ?s2 r"
      by (simp add: request.simps ri d)
    obtain res2 s3 where f: "onFulfilled h ?s2 r = (res2, s3)" by (cases "onFulfilled h ?s2 r")
    have s3: "sent s3 = sent s @ [c1]" using onFulfilled_frame(1) [of h ?s2 r] f s1 by simp
    obtain cfg where "fst (loadConfig h s) = Inr cfg"
      using requestInterceptor_loads(3) [OF ri] by blast
    then have "fst (loadConfig h ?s2) = Inr cfg"
      using loadConfig_result [of ?s2 s h] requestInterceptor_loads(1,2) [OF ri] by simp
    then have "res2 = Inr r" using onFulfilled_accepts [of h ?s2 cfg r] f by simp
    with eq f s3 rc1 show ?thesis by auto
  qed
qed

lemma dispatchRequest_cases:
  "dispatchRequest h s c = (res, s') \<Longrightarrow>
   s' = s\<lparr>sent := sent s @ [c]\<rparr> \<and> ((\<exists>r. res = Inr r) \<or> (\<exists>resp. res = Inl (AxiosError c resp)))"
  by (auto simp: dispatchRequest_def Let_def split: reply.splits if_splits)

lemma pipeline_effects:
  "(\<exists>xs. sent (snd (request h s c)) = sent s @ xs
          \<and> (\<forall>r\<in>set xs. baseURL r = baseURL (mergeConfig c) \<and> url r = url c))
     \<and> (\<exists>ys. console (snd (request h s c)) = console s @ ys)"
  "(\<exists>xs. sent (snd (onRejected h s e)) = sent s @ xs
          \<and> (\<forall>r\<in>set xs. \<forall>ec resp. e = AxiosError ec resp \<longrightarrow>
                 baseURL r = baseURL (mergeConfig ec) \<and> url r = url ec))
     \<and> (\<exists>ys. console (snd (onRejected h s e)) = console s @ ys)"
proof (induction h s c and h s e rule: request_onRejected.induct)
  case (1 h s config0)
  show ?case
  proof -
    obtain res s1 where ri: "requestInterceptor h s (mergeConfig config0) = (res, s1)"
      by (cases "requestInterceptor h s (mergeConfig config0)")
    show ?thesis
    proof (cases res)
      case (Inl f)
      with ri have eq: "request h s config0 = (Inl (Error f), s1)" by (simp add: request_refused)
      from ri Inl have "sent s1 = sent s" "\<exists>ys. console s1 = console s @ ys"
        using requestInterceptor_Inl by blast+
      with eq show ?thesis by simp
    next
      case (Inr c1)
      with ri have ri': "requestInterceptor h s (mergeConfig config0) = (Inr c1, s1)" by simp
      have s1: "sent s1 = sent s" by (rule requestInterceptor_Inr(1) [OF ri'])
      obtain ys1 where y1: "console s1 = console s @ ys1"
        using requestInterceptor_Inr(2) [OF ri'] by blast
      obtain k where c1: "c1 = (mergeConfig config0)\<lparr>headers := AList.update ''X-API-Key'' k (headers (mergeConfig config0))\<rparr>"
        using requestInterceptor_Inr(3) [OF ri'] by blast
      have bc1: "baseURL c1 = baseURL (mergeConfig config0)" "url c1 = url config0"
        "baseURL (mergeConfig c1) = baseURL (mergeConfig config0)"
        unfolding c1 by (auto simp: mergeConfig_def split: option.splits)
      obtain res2 s2 where d: "dispatchRequest h s1 c1 = (res2, s2)"
        by (cases "dispatchRequest h s1 c1")
      from dispatchRequest_cases [OF d]
      have s2: "s2 = s1\<lparr>sent := sent s1 @ [c1]\<rparr>"
        and alt: "(\<exists>r. res2 = Inr r) \<or> (\<exists>resp. res2 = Inl (AxiosError c1 resp))" by auto
      from alt show ?thesis
      proof
        assume "\<exists>r. res2 = Inr r"
        then obtain r where r: "res2 = Inr r" by blast
        have eq: "request h s config0 = onFulfilled h s2 r"
          by (simp add: request.simps ri' d r)
        have "sent (snd (request h s config0)) = sent s @ [c1]"
          unfolding eq using onFulfilled_frame(1) [of h s2 r] s1 s2 by simp
        moreover have "console (snd (request h s config0)) = console s @ ys1"
          unfolding eq using onFulfilled_frame(2) [of h s2 r] y1 s2 by simp
        ultimately show ?thesis using bc1 by simp
      next
        assume "\<exists>resp. res2 = Inl (AxiosError c1 resp)"
        then obtain resp where r: "res2 = Inl (AxiosError c1 resp)" by blast
        have eq: "request h s config0 = onRejected h s2 (AxiosError c1 resp)"
          by (simp add: request.simps ri' d r)
        have ih: "(\<exists>xs. sent (snd (onRejected h s2 (AxiosError c1 resp))) = sent s2 @ xs
                \<and> (\<forall>r\<in>set xs. baseURL r = baseURL (mergeConfig c1) \<and> url r = url c1))
              \<and> (\<exists>ys. console (snd (onRejected h s2 (AxiosError c1 resp))) = console s2 @ ys)"
          using "1.IH"(2) [of "Inr c1" s1 c1 res2 s2 "AxiosError c1 resp"] ri' d r by simp
        then obtain xs ys where
          xs: "sent (snd (onRejected h s2 (AxiosError c1 resp))) = sent s2 @ xs"
            "\<forall>r\<in>set xs. baseURL r = baseURL (mergeConfig c1) \<and> url r = url c1"
          and ys: "console (snd (onRejected h s2 (AxiosError c1 resp))) = console s2 @ ys"
          by blast
        have "sent (snd (request h s config0)) = sent s @ (c1 # xs)"
          unfolding eq xs(1) by (simp add: s2 s1)
        moreover have "\<forall>r\<in>set (c1 # xs). baseURL r = baseURL (mergeConfig config0) \<and> url r = url config0"
          using xs(2) bc1 by simp
        moreover have "console (snd (request h s config0)) = console s @ (ys1 @ ys)"
          unfolding eq ys by (simp add: s2 y1)
        ultimately show ?thesis by blast
      qed
    qed
  qed
next
  case (2 h s error)
  show ?case
  proof -
    let ?goal = "(\<exists>xs. sent (snd (onRejected h s error)) = sent s @ xs
          \<and> (\<forall>r\<in>set xs. \<forall>ec resp. error = AxiosError ec resp \<longrightarrow>
                 baseURL r = baseURL (mergeConfig ec) \<and> url r = url ec))
       \<and> (\<exists>ys. console (snd (onRejected h s error)) = console s @ ys)"
    have stop: "onRejected h s error = (Inl error, s) \<Longrightarrow> ?goal" by simp
    show ?goal
    proof (cases error)
      case (Error f)
      then show ?thesis by (intro stop) (simp add: onRejected.simps)
    next
      case (AxiosError ec resp)
      show ?thesis
      proof (cases resp)
        case None
        with AxiosError show ?thesis by (intro stop) (simp add: onRejected.simps)
      next
        case (Some r)
        show ?thesis
        proof (cases "respStatus r = 429 \<and> retryCountOf ec < 3")
          case False
          with AxiosError Some show ?thesis
            by (intro stop) (auto simp: onRejected.simps Let_def)
        next
          case True
          let ?w = "waitMs (map_of (respHeaders r) ''x-ratelimit-reset'') (clock s) (clock s)"
          let ?s' = "sleep ?w (s\<lparr>console := console s @ [RateLimitedMessage (map_option ceilSeconds ?w)]\<rparr>)"
          let ?c' = "ec\<lparr>retryCount := Some (retryCountOf ec + 1)\<rparr>"
          have eq: "onRejected h s error = request h ?s' ?c'"
            using True AxiosError Some by (simp add: onRejected.simps Let_def)
          have bc: "baseURL (mergeConfig ?c') = baseURL (mergeConfig ec)" "url ?c' = url ec"
            by (simp_all add: mergeConfig_def)
          have ih: "(\<exists>xs. sent (snd (request h ?s' ?c')) = sent ?s' @ xs
                  \<and> (\<forall>r\<in>set xs. baseURL r = baseURL (mergeConfig ?c') \<and> url r = url ?c'))
                \<and> (\<exists>ys. console (snd (request h ?s' ?c')) = console ?s' @ ys)"
            using "2.IH" [of ec resp r "map_of (respHeaders r) ''x-ratelimit-reset''" ?w "retryCountOf ec"]
              True AxiosError Some by simp
          then obtain xs ys where
            xs: "sent (snd (request h ?s' ?c')) = sent ?s' @ xs"
              "\<forall>r\<in>set xs. baseURL r = baseURL (mergeConfig ?c') \<and> url r = url ?c'"
            and ys: "console (snd (request h ?s' ?c')) = console ?s' @ ys"
            by blast
          have "sent (snd (onRejected h s error)) = sent s @ xs"
            unfolding eq xs(1) by (simp add: sleep_def)
          moreover have "\<forall>r\<in>set xs. \<forall>ec resp. error = AxiosError ec resp \<longrightarrow>
                baseURL r = baseURL (mergeConfig ec) \<and> url r = url ec"
            using xs(2) AxiosError bc by simp
          moreover have "console (snd (onRejected h s error))
              = console s @ (RateLimitedMessage (map_option ceilSeconds ?w) # ys)"
            unfolding eq ys by (simp add: sleep_def)
          ultimately show ?thesis by blast
        qed
      qed
    qed
  qed
qed

section \<open>Three retries\<close>

lemmas scenario_defs = scenarioDate_def scenarioHost_def scenarioState_def envWithKey_def envEmptyKey_def
  envBaseUrl_def envNone_def noFiles_def configFile_def storedConfig_def threeThenOk_def
  alwaysTooMany_def alwaysOk_def tooManyRequests_def okResponse_def posixJoin_def
  getConfigPath_def getConfigDir_def SERVICE_NAME_def KEY_NAME_def

lemmas pipeline_defs = requestInterceptor_def getApiKey_def getApiKeySecret_def
  isKeychainAvailable_def loadConfig_def checkExpiration_def defaultConfig_def
  dispatchRequest_def onFulfilled_def mergeConfig_def retryCountOf_def waitMs_def sleep_def
  timerDelay_def existsSync_def truthy_def Let_def JSON_parse_config config_of_json_of_config

lemmas eval_defs = client_get_def request.simps onRejected.simps pipeline_defs scenario_defs

lemma three_retries:
  assumes r0: "replies h (length (sent s)) = Reply q0" "respStatus q0 = 429"
    and r1: "replies h (length (sent s) + 1) = Reply q1" "respStatus q1 = 429"
    and r2: "replies h (length (sent s) + 2) = Reply q2" "respStatus q2 = 429"
    and c: "retryCountOf c = 0"
  shows "(\<exists>f s1. request h s c = (Inl (Error f), s1) \<and> length (sent s1) < length (sent s) + 3)
       \<or> (\<exists>c1 c2 c3 s' c'. request h s c = request h s' c' \<and> sent s' = sent s @ [c1, c2, c3]
             \<and> map retryCountOf [c1, c2, c3] = [0, 1, 2] \<and> retryCountOf c' = 3)"
proof -
  from request_429_retry [OF r0, of c] c
  consider (refused) f s1 where "request h s c = (Inl (Error f), s1)" "sent s1 = sent s"
    | (retry) c1 s1 where "request h s c = request h s1 (c1\<lparr>retryCount := Some 1\<rparr>)"
        "sent s1 = sent s @ [c1]" "retryCountOf c1 = 0"
    by auto
  then show ?thesis
  proof cases
    case (refused f s1)
    have "length (sent s1) < length (sent s) + 3" using refused(2) by simp
    with refused(1) show ?thesis by metis
  next
    case (retry c1 s1)
    have rep1: "replies h (length (sent s1)) = Reply q1" using r1 retry(2) by simp
    from request_429_retry [OF rep1 r1(2), of "c1\<lparr>retryCount := Some 1\<rparr>"]
    consider (refused) f s2 where
          "request h s1 (c1\<lparr>retryCount := Some 1\<rparr>) = (Inl (Error f), s2)" "sent s2 = sent s1"
      | (retry2) c2 s2 where
          "request h s1 (c1\<lparr>retryCount := Some 1\<rparr>) = request h s2 (c2\<lparr>retryCount := Some 2\<rparr>)"
          "sent s2 = sent s1 @ [c2]" "retryCountOf c2 = 1"
      by (auto simp: numeral_2_eq_2)
    then show ?thesis
    proof cases
      case (refused f s2)
      have "request h s c = (Inl (Error f), s2)" using retry(1) refused(1) by simp
      moreover have "length (sent s2) < length (sent s) + 3" using refused(2) retry(2) by simp
      ultimately show ?thesis by metis
    next
      case (retry2 c2 s2)
      have rep2: "replies h (length (sent s2)) = Reply q2"
        using r2 retry(2) retry2(2) by (simp add: numeral_2_eq_2)
      from request_429_retry [OF rep2 r2(2), of "c2\<lparr>retryCount := Some 2\<rparr>"]
      consider (refused) f s3 where
            "request h s2 (c2\<lparr>retryCount := Some 2\<rparr>) = (Inl (Error f), s3)" "sent s3 = sent s2"
        | (retry3) c3 s3 where
            "request h s2 (c2\<lparr>retryCount := Some 2\<rparr>) = request h s3 (c3\<lparr>retryCount := Some 3\<rparr>)"
            "sent s3 = sent s2 @ [c3]" "retryCountOf c3 = 2"
        by (auto simp: numeral_3_eq_3 numeral_2_eq_2)
      then show ?thesis
      proof cases
        case (refused f s3)
        have "request h s c = (Inl (Error f), s3)" using retry(1) retry2(1) refused(1) by simp
        moreover have "length (sent s3) < length (sent s) + 3"
          using refused(2) retry(2) retry2(2) by simp
        ultimately show ?thesis by metis
      next
        case (retry3 c3 s3)
        define c' where "c' = c3\<lparr>retryCount := Some 3\<rparr>"
        have "request h s c = request h s3 c'"
          using retry(1) retry2(1) retry3(1) by (simp add: c'_def)
        moreover have "sent s3 = sent s @ [c1, c2, c3]"
          using retry(2) retry2(2) retry3(2) by simp
        moreover have "map retryCountOf [c1, c2, c3] = [0, 1, 2]"
          using retry(3) retry2(3) retry3(3) by simp
        moreover have "retryCountOf c' = 3" by (simp add: c'_def)
        ultimately show ?thesis by metis
      qed
    qed
  qed
qed

lemma fourth_attempt:
  assumes eq: "request h s c = request h s' c'"
    and snt: "sent s' = sent s @ [c1, c2, c3]"
    and cnt: "map retryCountOf [c1, c2, c3] = [0, 1, 2]" "retryCountOf c' = 3"
    and r3: "replies h (length (sent s) + 3) = Reply q3"
    and st: "respStatus q3 = 200 \<or> respStatus q3 = 429"
  shows "(\<exists>f. fst (request h s c) = Inl (Error f)
              \<and> length (sent (snd (request h s c))) < length (sent s) + 4)
       \<or> (\<exists>c1 c2 c3 c4. sent (snd (request h s c)) = sent s @ [c1, c2, c3, c4]
             \<and> map retryCountOf [c1, c2, c3, c4] = [0, 1, 2, 3]
             \<and> fst (request h s c)
               = (if respStatus q3 = 200 then Inr q3 else Inl (AxiosError c4 (Some q3))))"
proof -
  have rep: "replies h (length (sent s')) = Reply q3" using r3 snt by (simp add: numeral_3_eq_3)
  have "(\<exists>f s1. request h s' c' = (Inl (Error f), s1) \<and> sent s1 = sent s')
      \<or> (\<exists>c4 s4. request h s' c'
              = (if respStatus q3 = 200 then Inr q3 else Inl (AxiosError c4 (Some q3)), s4)
            \<and> sent s4 = sent s' @ [c4] \<and> retryCountOf c4 = retryCountOf c')"
  proof (cases "respStatus q3 = 200")
    case True
    with request_2xx [OF rep, of c'] show ?thesis by simp
  next
    case False
    with st have "respStatus q3 = 429" by simp
    moreover have "\<not> retryCountOf c' < 3" using cnt(2) by simp
    ultimately show ?thesis using request_429_exhausted [OF rep, of c'] False by simp
  qed
  then consider (refused) f s1 where "request h s' c' = (Inl (Error f), s1)" "sent s1 = sent s'"
    | (answered) c4 s4 where
        "request h s' c' = (if respStatus q3 = 200 then Inr q3 else Inl (AxiosError c4 (Some q3)), s4)"
        "sent s4 = sent s' @ [c4]" "retryCountOf c4 = retryCountOf c'"
    by metis
  then show ?thesis
  proof cases
    case (refused f s1)
    have "fst (request h s c) = Inl (Error f)" using eq refused(1) by simp
    moreover have "length (sent (snd (request h s c))) < length (sent s) + 4"
      using eq refused snt by simp
    ultimately show ?thesis by metis
  next
    case (answered c4 s4)
    have "sent (snd (request h s c)) = sent s @ [c1, c2, c3, c4]"
      using eq answered(1,2) snt by simp
    moreover have "map retryCountOf [c1, c2, c3, c4] = [0, 1, 2, 3]"
      using cnt answered(3) by simp
    moreover have "fst (request h s c)
        = (if respStatus q3 = 200 then Inr q3 else Inl (AxiosError c4 (Some q3)))"
      using eq answered(1) by simp
    ultimately show ?thesis by metis
  qed
qed

lemma four_attempts:
  assumes r0: "replies h (length (sent s)) = Reply q0" "respStatus q0 = 429"
    and r1: "replies h (length (sent s) + 1) = Reply q1" "respStatus q1 = 429"
    and r2: "replies h (length (sent s) + 2) = Reply q2" "respStatus q2 = 429"
    and r3: "replies h (length (sent s) + 3) = Reply q3"
    and c0: "retryCountOf c = 0"
    and st: "respStatus q3 = 200 \<or> respStatus q3 = 429"
  shows "(\<exists>f. fst (request h s c) = Inl (Error f)
              \<and> length (sent (snd (request h s c))) < length (sent s) + 4)
       \<or> (\<exists>c1 c2 c3 c4. sent (snd (request h s c)) = sent s @ [c1, c2, c3, c4]
             \<and> map retryCountOf [c1, c2, c3, c4] = [0, 1, 2, 3]
             \<and> fst (request h s c)
               = (if respStatus q3 = 200 then Inr q3 else Inl (AxiosError c4 (Some q3))))"
proof -
  from three_retries [OF r0 r1 r2 c0]
  consider (refused) f s1 where "request h s c = (Inl (Error f), s1)"
        "length (sent s1) < length (sent s) + 3"
    | (retried) c1 c2 c3 s' c' where "request h s c = request h s' c'"
        "sent s' = sent s @ [c1, c2, c3]" "map retryCountOf [c1, c2, c3] = [0, 1, 2]"
        "retryCountOf c' = 3"
    by metis
  then show ?thesis
  proof cases
    case (refused f s1)
    have "fst (request h s c) = Inl (Error f)" using refused(1) by simp
    moreover have "length (sent (snd (request h s c))) < length (sent s) + 4"
      using refused by simp
    ultimately show ?thesis by metis
  next
    case (retried c1 c2 c3 s' c')
    show ?thesis by (rule fourth_attempt [OF retried r3 st])
  qed
qed

section \<open>The configuration file\<close>

text \<open>
  C9. When no file exists at the configuration path, \<open>loadConfig\<close> returns exactly the
  built-in default: the default endpoint as \<open>baseUrl\<close>, \<open>json\<close> as \<open>outputFormat\<close>, no
  \<open>keyId\<close> and no \<open>apiKeyExpiresAt\<close>.
\<close>

theorem load_default:
  "\<not> existsSync s (getConfigPath h) \<Longrightarrow>
   fst (loadConfig h s)
   = Inr \<lparr>keyId = None, apiKeyExpiresAt = None,
          baseUrl = ''https://us-east4-pdfsummaries.cloudfunctions.net/api'',
          outputFormat = Json\<rparr>"
  by (simp add: loadConfig_def Let_def defaultConfig_def)

theorem load_default_witness:
  "\<not> existsSync (scenarioState noFiles) (getConfigPath (scenarioHost envNone alwaysOk))
   \<and> fst (loadConfig (scenarioHost envNone alwaysOk) (scenarioState noFiles))
     = Inr \<lparr>keyId = None, apiKeyExpiresAt = None,
            baseUrl = ''https://us-east4-pdfsummaries.cloudfunctions.net/api'',
            outputFormat = Json\<rparr>"
proof -
  have absent: "\<not> existsSync (scenarioState noFiles) (getConfigPath (scenarioHost envNone alwaysOk))"
    by (simp add: existsSync_def scenarioState_def noFiles_def)
  show ?thesis using absent load_default [OF absent] by simp
qed

text \<open>
  C8. For every Config whose string fields are ASCII, a \<open>saveConfig\<close> that succeeds
  followed by \<open>loadConfig\<close> yields the same Config, field for field.
\<close>

theorem save_then_load:
  "asciiConfig c \<Longrightarrow> fst (saveConfig h s c) = Inr u \<Longrightarrow>
   fst (loadConfig h (snd (saveConfig h s c))) = Inr c"
proof -
  assume "fst (saveConfig h s c) = Inr u"
  then have "saveConfig h s c = (Inr u, snd (saveConfig h s c))"
    by (cases "saveConfig h s c") simp
  then show ?thesis by (intro loadConfig_of_file) (rule saveConfig_files)
qed

theorem save_then_load_witness:
  "asciiConfig (storedConfig (Some ''abc123'') (Some ''2026-01-01T00:00:30.000Z''))
   \<and> fst (saveConfig (scenarioHost envNone alwaysOk) (scenarioState noFiles)
            (storedConfig (Some ''abc123'') (Some ''2026-01-01T00:00:30.000Z''))) = Inr ()
   \<and> fst (loadConfig (scenarioHost envNone alwaysOk)
            (snd (saveConfig (scenarioHost envNone alwaysOk) (scenarioState noFiles)
                    (storedConfig (Some ''abc123'') (Some ''2026-01-01T00:00:30.000Z'')))))
     = Inr (storedConfig (Some ''abc123'') (Some ''2026-01-01T00:00:30.000Z''))"
proof -
  have a: "asciiConfig (storedConfig (Some ''abc123'') (Some ''2026-01-01T00:00:30.000Z''))"
    by (simp add: asciiConfig_def asciiString_def storedConfig_def)
  have b: "fst (saveConfig (scenarioHost envNone alwaysOk) (scenarioState noFiles)
            (storedConfig (Some ''abc123'') (Some ''2026-01-01T00:00:30.000Z''))) = Inr ()"
    by (simp add: saveConfig_def Let_def scenarioHost_def)
  show ?thesis using a b save_then_load [OF a b] by simp
qed

lemma scenario_config_path: "getConfigPath (scenarioHost envNone rs) = ''/home/user/.assay/config.json''"
  "getConfigPath (scenarioHost envEmptyKey rs) = ''/home/user/.assay/config.json''"
  "getConfigPath (scenarioHost envWithKey rs) = ''/home/user/.assay/config.json''"
  "getConfigPath (scenarioHost envBaseUrl rs) = ''/home/user/.assay/config.json''"
  by (simp_all add: scenario_defs truthy_def)

lemma scenario_loadConfig:
  "getConfigPath h = ''/home/user/.assay/config.json'' \<Longrightarrow> files s = configFile c \<Longrightarrow>
   loadConfig h s = (Inr c, s\<lparr>fsLog := fsLog s @ [ExistsSync ''/home/user/.assay/config.json'',
                                                     ReadFileSync ''/home/user/.assay/config.json'']\<rparr>)"
  by (simp add: loadConfig_def Let_def existsSync_def configFile_def JSON_parse_config config_of_json_of_config)

section \<open>Credential resolution\<close>

text \<open>
  C5, as amended. Whenever \<open>ASSAY_API_KEY\<close> is set to a non-empty value, \<open>getApiKey\<close>
  returns that value verbatim and leaves the state as it was: no file-system call and no
  vault call is made.
\<close>

theorem env_key_wins:
  "env h ''ASSAY_API_KEY'' = Some k \<Longrightarrow> k \<noteq> [] \<Longrightarrow> getApiKey h s = (Inr (Some k), s)"
  by (simp add: getApiKey_def truthy_def)

theorem env_key_wins_witness:
  "env (scenarioHost envWithKey alwaysOk) ''ASSAY_API_KEY'' = Some ''ask_live_abc123_s3cret''
   \<and> ''ask_live_abc123_s3cret'' \<noteq> []
   \<and> getApiKey (scenarioHost envWithKey alwaysOk)
        (scenarioState (configFile (storedConfig (Some ''zzz999'') None)))
     = (Inr (Some ''ask_live_abc123_s3cret''),
        scenarioState (configFile (storedConfig (Some ''zzz999'') None)))"
proof -
  have a: "env (scenarioHost envWithKey alwaysOk) ''ASSAY_API_KEY'' = Some ''ask_live_abc123_s3cret''"
    by (simp add: scenarioHost_def envWithKey_def)
  have b: "''ask_live_abc123_s3cret'' \<noteq> []" by simp
  show ?thesis using a b env_key_wins [OF a b] by simp
qed

text \<open>
  C5 as stated fails when the variable is set to the empty string: the test
  \<open>if (process.env.ASSAY_API_KEY)\<close> is false, the Config file is read and the vault is
  queried, and the key recomposed from them is returned.
\<close>

theorem empty_env_key_counterexample:
  "env (scenarioHost envEmptyKey alwaysOk) ''ASSAY_API_KEY'' = Some []
   \<and> fst (getApiKey (scenarioHost envEmptyKey alwaysOk)
            (scenarioState (configFile (storedConfig (Some ''abc123'') None))))
     = Inr (Some ''ask_live_abc123_s3cret'')
   \<and> fsLog (snd (getApiKey (scenarioHost envEmptyKey alwaysOk)
            (scenarioState (configFile (storedConfig (Some ''abc123'') None)))))
     = [ExistsSync ''/home/user/.assay/config.json'', ReadFileSync ''/home/user/.assay/config.json'']
   \<and> vaultLog (snd (getApiKey (scenarioHost envEmptyKey alwaysOk)
            (scenarioState (configFile (storedConfig (Some ''abc123'') None)))))
     = [(''assay-cli'', ''test''), (''assay-cli'', ''api-key-secret'')]"
  by (simp add: pipeline_defs scenario_defs)






section \<open>Expiration\<close>

text \<open>
  C3. No timestamp: neither expired nor expiring soon. A timestamp at or before the
  current time: expired. A timestamp later than now and less than 30 minutes ahead, which
  includes 1 to 29 minutes: not expired and expiring soon. A timestamp 30 minutes or more
  ahead: neither. A timestamp is a non-empty string that the date parser accepts.
\<close>

theorem checkExpiration_cases:
  "checkExpiration toTime now None = \<lparr>expired = False, expiringSoon = False, message = None\<rparr>
   \<and> (t \<noteq> [] \<and> toTime t = Some expires \<and> expires \<le> now \<longrightarrow>
        expired (checkExpiration toTime now (Some t)))
   \<and> (t \<noteq> [] \<and> toTime t = Some expires \<and> now < expires \<and> expires < now + 30 * 60 * 1000 \<longrightarrow>
        \<not> expired (checkExpiration toTime now (Some t))
        \<and> expiringSoon (checkExpiration toTime now (Some t)))
   \<and> (t \<noteq> [] \<and> toTime t = Some expires \<and> now + 30 * 60 * 1000 \<le> expires \<longrightarrow>
        \<not> expired (checkExpiration toTime now (Some t))
        \<and> \<not> expiringSoon (checkExpiration toTime now (Some t)))"
  by (simp add: checkExpiration_def truthy_def Let_def)

theorem checkExpiration_cases_witness:
  "scenarioDate ''2025-12-31T23:59:00.000Z'' = Some 1767225540000
   \<and> (1767225540000 :: int) \<le> 1767225600000
   \<and> expired (checkExpiration scenarioDate 1767225600000 (Some ''2025-12-31T23:59:00.000Z''))
   \<and> scenarioDate ''2026-01-01T00:20:00.000Z'' = Some 1767226800000
   \<and> (1767225600000 :: int) < 1767226800000
   \<and> (1767226800000 :: int) < 1767225600000 + 30 * 60 * 1000
   \<and> \<not> expired (checkExpiration scenarioDate 1767225600000 (Some ''2026-01-01T00:20:00.000Z''))
   \<and> expiringSoon (checkExpiration scenarioDate 1767225600000 (Some ''2026-01-01T00:20:00.000Z''))
   \<and> scenarioDate ''2026-01-01T01:00:00.000Z'' = Some 1767229200000
   \<and> (1767225600000 :: int) + 30 * 60 * 1000 \<le> 1767229200000
   \<and> \<not> expired (checkExpiration scenarioDate 1767225600000 (Some ''2026-01-01T01:00:00.000Z''))
   \<and> \<not> expiringSoon (checkExpiration scenarioDate 1767225600000 (Some ''2026-01-01T01:00:00.000Z''))"
  using checkExpiration_cases [of scenarioDate 1767225600000 "''2025-12-31T23:59:00.000Z''" 1767225540000]
        checkExpiration_cases [of scenarioDate 1767225600000 "''2026-01-01T00:20:00.000Z''" 1767226800000]
        checkExpiration_cases [of scenarioDate 1767225600000 "''2026-01-01T01:00:00.000Z''" 1767229200000]
  by (simp add: scenarioDate_def)

section \<open>The check before every call\<close>

lemma getApiKey_nonempty: "fst (getApiKey h s) = Inr (Some k) \<Longrightarrow> k \<noteq> []"
  by (cases "loadConfig h s"; cases "getApiKeySecret h (snd (loadConfig h s))")
     (auto simp: getApiKey_def truthy_def split: if_splits sum.splits option.splits)






section \<open>The wait before a retry\<close>

lemma waitMs_clamped:
  "waitMs resetHeader now1 now2 = Some w \<Longrightarrow> 1000 \<le> w \<and> w \<le> 60000"
  by (auto simp: waitMs_def Let_def split: if_splits)

lemma waitMs_numeric:
  "hv \<noteq> [] \<Longrightarrow> parseInt hv = Some r \<Longrightarrow>
   waitMs (Some hv) now1 now2 = Some (max (min (r * 1000 - now2) 60000) 1000)"
  by (simp add: waitMs_def truthy_def)

lemma waitMs_long_reset:
  "hv \<noteq> [] \<Longrightarrow> parseInt hv = Some r \<Longrightarrow> now2 + 60000 \<le> r * 1000 \<Longrightarrow>
   waitMs (Some hv) now1 now2 = Some 60000"
  by (simp add: waitMs_numeric)

lemma waitMs_past_reset:
  "hv \<noteq> [] \<Longrightarrow> parseInt hv = Some r \<Longrightarrow> r * 1000 \<le> now2 \<Longrightarrow>
   waitMs (Some hv) now1 now2 = Some 1000"
  by (simp add: waitMs_numeric)

lemma waitMs_absent:
  "\<not> truthy resetHeader \<Longrightarrow> waitMs resetHeader now now = Some 60000"
  by (simp add: waitMs_def)

lemma waitMs_NaN_iff:
  "waitMs resetHeader now1 now2 = None \<longleftrightarrow> truthy resetHeader \<and> parseInt (the resetHeader) = None"
  by (simp add: waitMs_def)

lemma parseInt_http_date: "parseInt ''Wed, 21 Oct 2026 07:28:00 GMT'' = None"
  by (simp add: parseInt_def isStrWhiteSpaceChar_def isRadixDigit_def digitValue_def)

text \<open>
  C2 at a reset header that does not start with a number: \<open>parseInt\<close> gives \<open>NaN\<close>, the
  computed wait is \<open>NaN\<close>, outside the interval from 1000 to 60000, and the timer fires
  after 1 millisecond.
\<close>

theorem waitMs_unparsable_reset:
  "waitMs (Some ''Wed, 21 Oct 2026 07:28:00 GMT'') now1 now2 = None
   \<and> timerDelay (waitMs (Some ''Wed, 21 Oct 2026 07:28:00 GMT'') now1 now2) = 1"
  by (simp add: waitMs_def truthy_def parseInt_http_date timerDelay_def)

section \<open>A credential that lasts through the retries\<close>

lemma expired_later:
  "expired (checkExpiration f t e) \<Longrightarrow> t \<le> t' \<Longrightarrow> expired (checkExpiration f t' e)"
  by (auto simp: checkExpiration_def Let_def split: if_splits option.splits)

lemma getApiKeySecret_available:
  "keytarAvailable s \<noteq> Some False \<Longrightarrow> vault h = Some v \<Longrightarrow>
   fst (getApiKeySecret h s) = v (SERVICE_NAME, KEY_NAME)
   \<and> keytarAvailable (snd (getApiKeySecret h s)) = Some True"
  by (cases "keytarAvailable s")
     (auto simp: getApiKeySecret_def isKeychainAvailable_def Let_def)

lemma keyResolves_getApiKey:
  assumes k: "keyResolves h s c" and l: "fst (loadConfig h s) = Inr c"
  shows "\<exists>key. fst (getApiKey h s) = Inr (Some key)"
    and "keyResolves h (snd (getApiKey h s)) c"
proof -
  obtain s1 where l1: "loadConfig h s = (Inr c, s1)" using l by (cases "loadConfig h s") simp
  have ka: "keytarAvailable s1 = keytarAvailable s" using loadConfig_frame(7) [of h s] l1 by simp
  show "\<exists>key. fst (getApiKey h s) = Inr (Some key)"
  proof (cases "truthy (env h ''ASSAY_API_KEY'')")
    case True
    then show ?thesis by (cases "env h ''ASSAY_API_KEY''") (simp_all add: getApiKey_def truthy_def)
  next
    case False
    with k obtain v where v: "truthy (keyId c)" "keytarAvailable s \<noteq> Some False"
      "vault h = Some v" "truthy (v (SERVICE_NAME, KEY_NAME))"
      by (auto simp: keyResolves_def split: option.splits)
    from getApiKeySecret_available [of s1 h v] v ka
    have "fst (getApiKeySecret h s1) = v (SERVICE_NAME, KEY_NAME)" by simp
    with False v show ?thesis
      by (cases "getApiKeySecret h s1") (simp add: getApiKey_def l1)
  qed
  show "keyResolves h (snd (getApiKey h s)) c"
  proof (cases "truthy (env h ''ASSAY_API_KEY'')")
    case True
    then show ?thesis by (simp add: keyResolves_def)
  next
    case False
    with k obtain v where v: "truthy (keyId c)" "keytarAvailable s \<noteq> Some False"
      "vault h = Some v" "truthy (v (SERVICE_NAME, KEY_NAME))"
      by (auto simp: keyResolves_def split: option.splits)
    from getApiKeySecret_available [of s1 h v] v ka
    have g: "fst (getApiKeySecret h s1) = v (SERVICE_NAME, KEY_NAME)"
      "keytarAvailable (snd (getApiKeySecret h s1)) = Some True" by simp_all
    with False v show ?thesis
      by (cases "getApiKeySecret h s1") (simp add: getApiKey_def l1 keyResolves_def)
  qed
qed

lemma requestInterceptor_accepts:
  assumes c: "credentialHolds h s c until" and t: "clock s \<le> until"
  shows "\<exists>c1 s1. requestInterceptor h s cfg = (Inr c1, s1) \<and> retryCountOf c1 = retryCountOf cfg
           \<and> clock s1 = clock s \<and> credentialHolds h s1 c until"
proof -
  from c have l: "fst (loadConfig h s) = Inr c" and k: "keyResolves h s c"
    and e: "\<not> expired (checkExpiration (dateTime h) until (apiKeyExpiresAt c))"
    by (simp_all add: credentialHolds_def)
  obtain key where key: "fst (getApiKey h s) = Inr (Some key)"
    using keyResolves_getApiKey(1) [OF k l] by blast
  then obtain sa where g: "getApiKey h s = (Inr (Some key), sa)" by (cases "getApiKey h s") simp
  have ka: "keyResolves h sa c" using keyResolves_getApiKey(2) [OF k l] g by simp
  have fa: "clock sa = clock s" "files sa = files s" "dirs sa = dirs s"
    using getApiKey_frame [of h s] g by simp_all
  have la: "fst (loadConfig h sa) = Inr c" using loadConfig_result [OF fa(2,3), of h] l by simp
  then obtain sb where lb: "loadConfig h sa = (Inr c, sb)" by (cases "loadConfig h sa") simp
  have fb: "clock sb = clock s" "files sb = files s" "dirs sb = dirs s"
    "keytarAvailable sb = keytarAvailable sa"
    using loadConfig_frame [of h sa] lb fa by simp_all
  have ne: "truthy (Some key)" using getApiKey_nonempty [OF key] by (simp add: truthy_def)
  have now: "\<not> expired (checkExpiration (dateTime h) (clock s) (apiKeyExpiresAt c))"
    using e t expired_later by blast
  let ?x = "checkExpiration (dateTime h) (clock s) (apiKeyExpiresAt c)"
  let ?s3 = "if expiringSoon ?x \<and> message ?x \<noteq> None
             then sb\<lparr>console := console sb @ [the (message ?x)]\<rparr> else sb"
  have ri: "requestInterceptor h s cfg
            = (Inr (cfg\<lparr>headers := AList.update ''X-API-Key'' key (headers cfg)\<rparr>), ?s3)"
    using now by (simp add: requestInterceptor_def g lb ne fb Let_def)
  have f3: "clock ?s3 = clock s" "files ?s3 = files s" "dirs ?s3 = dirs s"
    "keytarAvailable ?s3 = keytarAvailable sa"
    using fb by simp_all
  have "fst (loadConfig h ?s3) = Inr c" using loadConfig_result [OF f3(2,3), of h] l by simp
  moreover have "keyResolves h ?s3 c" using ka f3(4) by (simp add: keyResolves_def)
  ultimately have "credentialHolds h ?s3 c until" using e by (simp add: credentialHolds_def)
  with ri f3(1) show ?thesis by simp
qed

lemma credentialHolds_frame:
  "credentialHolds h s c until \<Longrightarrow> files s' = files s \<Longrightarrow> dirs s' = dirs s \<Longrightarrow>
   keytarAvailable s' = keytarAvailable s \<Longrightarrow> until' \<le> until \<Longrightarrow>
   credentialHolds h s' c until'"
  using expired_later [of "dateTime h" until' "apiKeyExpiresAt c" until]
    loadConfig_result [of s' s h]
  by (auto simp: credentialHolds_def keyResolves_def)

lemma timerDelay_waitMs: "timerDelay (waitMs hdr n1 n2) \<le> 60000"
  by (cases "waitMs hdr n1 n2") (auto simp: timerDelay_def dest: waitMs_clamped)

lemma never_refused:
  "credentialHolds h s c (clock s + 60000 * int (3 - retryCountOf cfg)) \<longrightarrow>
     (\<forall>f. fst (request h s cfg) \<noteq> Inl (Error f))"
  "(\<forall>ec resp. e = AxiosError ec resp \<longrightarrow>
       credentialHolds h s c (clock s + 60000 * int (3 - retryCountOf ec)))
   \<and> (\<forall>f. e \<noteq> Error f) \<longrightarrow>
     (\<forall>f. fst (onRejected h s e) \<noteq> Inl (Error f))"
proof (induction h s cfg and h s e rule: request_onRejected.induct)
  case (1 h s config0)
  show ?case
  proof
    let ?until = "clock s + 60000 * int (3 - retryCountOf config0)"
    assume hold: "credentialHolds h s c ?until"
    have t: "clock s \<le> ?until" by simp
    from requestInterceptor_accepts [OF hold t, of "mergeConfig config0"]
    obtain c1 s1 where ri: "requestInterceptor h s (mergeConfig config0) = (Inr c1, s1)"
      and rc: "retryCountOf c1 = retryCountOf config0" and cl: "clock s1 = clock s"
      and h1: "credentialHolds h s1 c ?until"
      by auto
    obtain res s2 where d: "dispatchRequest h s1 c1 = (res, s2)"
      by (cases "dispatchRequest h s1 c1")
    from dispatchRequest_cases [OF d]
    have s2: "s2 = s1\<lparr>sent := sent s1 @ [c1]\<rparr>"
      and alt: "(\<exists>r. res = Inr r) \<or> (\<exists>resp. res = Inl (AxiosError c1 resp))" by auto
    have h2: "credentialHolds h s2 c (clock s2 + 60000 * int (3 - retryCountOf c1))"
      using h1 by (rule credentialHolds_frame) (simp_all add: s2 rc cl)
    from alt show "\<forall>f. fst (request h s config0) \<noteq> Inl (Error f)"
    proof
      assume "\<exists>r. res = Inr r"
      then obtain r where r: "res = Inr r" by blast
      have "request h s config0 = onFulfilled h s2 r" by (simp add: request.simps ri d r)
      moreover have "fst (onFulfilled h s2 r) = Inr r"
        using h2 by (intro onFulfilled_accepts [of h s2 c]) (simp add: credentialHolds_def)
      ultimately show ?thesis by simp
    next
      assume "\<exists>resp. res = Inl (AxiosError c1 resp)"
      then obtain resp where r: "res = Inl (AxiosError c1 resp)" by blast
      have eq: "request h s config0 = onRejected h s2 (AxiosError c1 resp)"
        by (simp add: request.simps ri d r)
      have "\<forall>f. fst (onRejected h s2 (AxiosError c1 resp)) \<noteq> Inl (Error f)"
        using "1.IH"(2) [of "Inr c1" s1 c1 res s2 "AxiosError c1 resp"] ri d r h2 by simp
      then show ?thesis unfolding eq .
    qed
  qed
next
  case (2 h s error)
  show ?case
  proof
    assume a: "(\<forall>ec resp. error = AxiosError ec resp \<longrightarrow>
                 credentialHolds h s c (clock s + 60000 * int (3 - retryCountOf ec)))
               \<and> (\<forall>f. error \<noteq> Error f)"
    have stop: "onRejected h s error = (Inl error, s) \<Longrightarrow>
                \<forall>f. fst (onRejected h s error) \<noteq> Inl (Error f)"
      using a by simp
    show "\<forall>f. fst (onRejected h s error) \<noteq> Inl (Error f)"
    proof (cases error)
      case (Error f)
      with a show ?thesis by simp
    next
      case (AxiosError ec resp)
      show ?thesis
      proof (cases resp)
        case None
        with AxiosError show ?thesis by (intro stop) (simp add: onRejected.simps)
      next
        case (Some r)
        show ?thesis
        proof (cases "respStatus r = 429 \<and> retryCountOf ec < 3")
          case False
          with AxiosError Some show ?thesis
            by (intro stop) (auto simp: onRejected.simps Let_def)
        next
          case True
          let ?w = "waitMs (map_of (respHeaders r) ''x-ratelimit-reset'') (clock s) (clock s)"
          let ?s' = "sleep ?w (s\<lparr>console := console s @ [RateLimitedMessage (map_option ceilSeconds ?w)]\<rparr>)"
          let ?c' = "ec\<lparr>retryCount := Some (retryCountOf ec + 1)\<rparr>"
          have eq: "onRejected h s error = request h ?s' ?c'"
            using True AxiosError Some by (simp add: onRejected.simps Let_def)
          have hold: "credentialHolds h s c (clock s + 60000 * int (3 - retryCountOf ec))"
            using a AxiosError by simp
          have le: "clock ?s' + 60000 * int (3 - retryCountOf ?c')
                    \<le> clock s + 60000 * int (3 - retryCountOf ec)"
            using True timerDelay_waitMs [of "map_of (respHeaders r) ''x-ratelimit-reset''" "clock s" "clock s"]
            by (simp add: sleep_def)
          have h': "credentialHolds h ?s' c (clock ?s' + 60000 * int (3 - retryCountOf ?c'))"
            using hold by (rule credentialHolds_frame) (simp_all add: sleep_def le [unfolded sleep_def, simplified])
          have "\<forall>f. fst (request h ?s' ?c') \<noteq> Inl (Error f)"
            using "2.IH" [of ec resp r "map_of (respHeaders r) ''x-ratelimit-reset''" ?w "retryCountOf ec"]
              True AxiosError Some h' by simp
          then show ?thesis unfolding eq .
        qed
      qed
    qed
  qed
qed

text \<open>With a credential that holds for the three minutes the three waits can take at most,
  no attempt is refused: three 429 responses are followed by a fourth request.\<close>

lemma retry_with_lasting_credential:
  assumes r0: "replies h (length (sent s)) = Reply q0" "respStatus q0 = 429"
    and r1: "replies h (length (sent s) + 1) = Reply q1" "respStatus q1 = 429"
    and r2: "replies h (length (sent s) + 2) = Reply q2" "respStatus q2 = 429"
    and r3: "replies h (length (sent s) + 3) = Reply q3"
    and st: "respStatus q3 = 200 \<or> respStatus q3 = 429"
    and hold: "credentialHolds h s c (clock s + 180000)"
  shows "\<exists>c1 c2 c3 c4. sent (snd (client_get h s u ps)) = sent s @ [c1, c2, c3, c4]
             \<and> fst (client_get h s u ps)
               = (if respStatus q3 = 200 then Inr q3 else Inl (AxiosError c4 (Some q3)))"
proof -
  define cfg where "cfg = \<lparr>httpMethod = ''get'', url = u, params = ps, baseURL = None,
             timeout = None, headers = [], retryCount = None\<rparr>"
  have c0: "retryCountOf cfg = 0" by (simp add: retryCountOf_def cfg_def)
  have cg: "client_get h s u ps = request h s cfg" by (simp add: client_get_def cfg_def)
  have "credentialHolds h s c (clock s + 60000 * int (3 - retryCountOf cfg))"
    using hold by (simp add: c0)
  then have no: "\<forall>f. fst (request h s cfg) \<noteq> Inl (Error f)"
    using never_refused(1) [of h s c cfg] by simp
  show ?thesis
    unfolding cg using four_attempts [OF r0 r1 r2 r3 c0 st] no by metis
qed

section \<open>Retry on rate limiting\<close>




section \<open>Where requests go\<close>

lemma endpoint_full_path:
  "baseURL r = Some BASE_URL \<Longrightarrow> url r = endpointPath e \<Longrightarrow>
   buildFullPath r = BASE_URL @ endpointPath e"
  by (cases e)
     (simp_all add: buildFullPath_def isAbsoluteURL_def combineURLs_def BASE_URL_def
        endpointPath_def isAlpha_def)

text \<open>
  C10. Every request that a call of \<open>client.get\<close> puts on the wire has the compiled-in
  \<open>BASE_URL\<close> as its base, whatever the environment (\<open>ASSAY_BASE_URL\<close> included) and the
  Config file hold; for the paths of the command handlers the full address is \<open>BASE_URL\<close>
  followed by the path.
\<close>

theorem requests_go_to_base_url:
  "\<exists>xs. sent (snd (client_get h s u ps)) = sent s @ xs
        \<and> (\<forall>r\<in>set xs. baseURL r = Some BASE_URL \<and> url r = u
               \<and> (\<forall>e. u = endpointPath e \<longrightarrow> buildFullPath r = BASE_URL @ endpointPath e))"
proof -
  define c where "c = \<lparr>httpMethod = ''get'', url = u, params = ps, baseURL = None,
             timeout = None, headers = [], retryCount = None\<rparr>"
  have b: "baseURL (mergeConfig c) = Some BASE_URL" "url c = u"
    by (simp_all add: c_def mergeConfig_def)
  from pipeline_effects(1) [of h s c] obtain xs where
    xs: "sent (snd (request h s c)) = sent s @ xs"
      "\<forall>r\<in>set xs. baseURL r = baseURL (mergeConfig c) \<and> url r = url c"
    by blast
  have "\<forall>r\<in>set xs. baseURL r = Some BASE_URL \<and> url r = u
          \<and> (\<forall>e. u = endpointPath e \<longrightarrow> buildFullPath r = BASE_URL @ endpointPath e)"
    using xs(2) b by (simp add: endpoint_full_path)
  with xs(1) show ?thesis by (auto simp: client_get_def c_def)
qed

theorem requests_go_to_base_url_witness:
  "env (scenarioHost envBaseUrl threeThenOk) ''ASSAY_BASE_URL'' = Some ''https://staging.example.test''
   \<and> map buildFullPath
        (sent (snd (client_get (scenarioHost envBaseUrl threeThenOk)
                      (scenarioState (configFile (storedConfig (Some ''abc123'') None)))
                      (endpointPath Me) [])))
     = [''https://api.assay.cirrusly-clever.com/api/v1/me'',
        ''https://api.assay.cirrusly-clever.com/api/v1/me'',
        ''https://api.assay.cirrusly-clever.com/api/v1/me'',
        ''https://api.assay.cirrusly-clever.com/api/v1/me'']
   \<and> map baseURL
        (sent (snd (client_get (scenarioHost envBaseUrl threeThenOk)
                      (scenarioState (configFile (storedConfig (Some ''abc123'') None)))
                      (endpointPath Me) [])))
     = [Some BASE_URL, Some BASE_URL, Some BASE_URL, Some BASE_URL]"
proof -
  have s0: "sent (scenarioState (configFile (storedConfig (Some ''abc123'') None))) = []"
    by (simp add: scenarioState_def)
  have ev: "map buildFullPath
        (sent (snd (client_get (scenarioHost envBaseUrl threeThenOk)
                      (scenarioState (configFile (storedConfig (Some ''abc123'') None)))
                      (endpointPath Me) [])))
     = [''https://api.assay.cirrusly-clever.com/api/v1/me'',
        ''https://api.assay.cirrusly-clever.com/api/v1/me'',
        ''https://api.assay.cirrusly-clever.com/api/v1/me'',
        ''https://api.assay.cirrusly-clever.com/api/v1/me'']"
    by (simp add: eval_defs endpointPath_def buildFullPath_def isAbsoluteURL_def combineURLs_def
          BASE_URL_def isAlpha_def)
  have ev2: "map baseURL
        (sent (snd (client_get (scenarioHost envBaseUrl threeThenOk)
                      (scenarioState (configFile (storedConfig (Some ''abc123'') None)))
                      (endpointPath Me) [])))
     = [Some BASE_URL, Some BASE_URL, Some BASE_URL, Some BASE_URL]"
    by (simp add: eval_defs endpointPath_def)
  have e: "env (scenarioHost envBaseUrl threeThenOk) ''ASSAY_BASE_URL'' = Some ''https://staging.example.test''"
    by (simp add: scenarioHost_def envBaseUrl_def)
  show ?thesis
    using requests_go_to_base_url [of "scenarioHost envBaseUrl threeThenOk"
        "scenarioState (configFile (storedConfig (Some ''abc123'') None))" "endpointPath Me" "[]"]
      e ev ev2
    by simp
qed

end
